theory Spec2Isabelle
  imports Complex_Main "HOL-Library.Log_Nat"
begin

section \<open>Errors and basic types of plot.py\<close>

text \<open>
  The layout engine of \<^verbatim>\<open>src/plugins/utils/plot.py\<close> raises \<^verbatim>\<open>ValueError\<close> (sizing
  and alignment errors), fails assertions, and can divide by zero. Every raise of the
  source is a value \<open>Inl e\<close> of the model.
\<close>

datatype error = ValueError | AssertionError | ZeroDivisionError | TypeError

type_synonym Position = "int \<times> int"
type_synonym Size = "int \<times> int"

text \<open>The two components of an alignment, the values of \<^verbatim>\<open>ALIGN_MAP\<close>.\<close>

datatype xalign = XL | XC | XR
datatype yalign = YT | YC | YB

definition ALIGN_MAP :: "string \<rightharpoonup> xalign \<times> yalign" where
  "ALIGN_MAP = map_of
     [(''c'', (XC, YC)), (''l'', (XL, YC)), (''r'', (XR, YC)), (''t'', (XC, YT)), (''b'', (XC, YB)),
      (''tl'', (XL, YT)), (''tr'', (XR, YT)), (''bl'', (XL, YB)), (''br'', (XR, YB)),
      (''lt'', (XL, YT)), (''lb'', (XL, YB)), (''rt'', (XR, YT)), (''rb'', (XR, YB))]"

section \<open>Painter and its region stack\<close>

text \<open>
  \<^verbatim>\<open>class Painter\<close>: the fields the region operations read and write. The pixel
  buffer itself is represented by its size \<open>img_size\<close>, which \<^verbatim>\<open>restore_region\<close>
  reads when the stack is empty. Positions and sizes are Python ints, so the
  \<^verbatim>\<open>isinstance(..., int)\<close> assertions of \<^verbatim>\<open>set_region\<close> hold by typing.
\<close>

record painter =
  img_size :: Size
  p_offset :: Position
  p_size :: Size
  p_w :: int
  p_h :: int
  region_stack :: "(Position \<times> Size) list"

definition Painter_init :: "Size \<Rightarrow> painter" where
  "Painter_init sz =
     \<lparr> img_size = sz, p_offset = (0, 0), p_size = sz, p_w = fst sz, p_h = snd sz,
       region_stack = [] \<rparr>"

text \<open>\<^verbatim>\<open>region_stack.append\<close> adds at the end of the Python list and \<^verbatim>\<open>pop\<close> takes
  from the end; the model keeps the top of the stack at the head of the list.\<close>

definition set_region :: "Position \<Rightarrow> Size \<Rightarrow> painter \<Rightarrow> painter" where
  "set_region pos sz p =
     p\<lparr> region_stack := (p_offset p, p_size p) # region_stack p,
        p_offset := pos, p_size := sz, p_w := fst sz, p_h := snd sz \<rparr>"

definition shrink_region :: "Position \<Rightarrow> painter \<Rightarrow> painter" where
  "shrink_region dlt p =
     set_region (fst (p_offset p) + fst dlt, snd (p_offset p) + snd dlt)
                (fst (p_size p) - fst dlt * 2, snd (p_size p) - snd dlt * 2) p"

definition expand_region :: "Position \<Rightarrow> painter \<Rightarrow> painter" where
  "expand_region dlt p =
     set_region (fst (p_offset p) - fst dlt, snd (p_offset p) - snd dlt)
                (fst (p_size p) + fst dlt * 2, snd (p_size p) + snd dlt * 2) p"

text \<open>\<^verbatim>\<open>size = size or self.size\<close>: a Python pair is always truthy, so only
  \<^verbatim>\<open>None\<close> selects the current size.\<close>

definition move_region :: "Position \<Rightarrow> Size option \<Rightarrow> painter \<Rightarrow> painter" where
  "move_region dlt sz p =
     set_region (fst (p_offset p) + fst dlt, snd (p_offset p) + snd dlt)
                (case sz of None \<Rightarrow> p_size p | Some s \<Rightarrow> s) p"

definition restore_once :: "painter \<Rightarrow> painter" where
  "restore_once p =
     (case region_stack p of
        [] \<Rightarrow> p\<lparr> p_offset := (0, 0), p_size := img_size p,
                 p_w := fst (img_size p), p_h := snd (img_size p) \<rparr>
      | (off, sz) # rest \<Rightarrow>
          p\<lparr> region_stack := rest, p_offset := off, p_size := sz,
             p_w := fst sz, p_h := snd sz \<rparr>)"

function restore_region :: "int \<Rightarrow> painter \<Rightarrow> painter" where
  "restore_region depth p =
     (let p' = restore_once p in
      if depth > 1 then restore_region (depth - 1) p' else p')"
  by pat_completeness auto
termination
  by (relation "measure (\<lambda>(depth, p). nat depth)") auto

declare restore_region.simps [simp del]

section \<open>Widget base class\<close>

text \<open>
  \<^verbatim>\<open>class Widget\<close>. \<^verbatim>\<open>self.w\<close>, \<^verbatim>\<open>self.h\<close> and the cached
  \<^verbatim>\<open>_calc_w\<close>, \<^verbatim>\<open>_calc_h\<close> are \<^verbatim>\<open>None\<close> or an int. The background and the
  draw hooks are arbitrary callables; \<open>Widget_draw\<close> below takes what they do to the
  painter as a parameter.
\<close>

record widget =
  content_halign :: xalign
  content_valign :: yalign
  vmargin :: int
  hmargin :: int
  vpadding :: int
  hpadding :: int
  self_w :: "int option"
  self_h :: "int option"
  self_offset :: Position
  offset_xanchor :: xalign
  offset_yanchor :: yalign
  calc_w :: "int option"
  calc_h :: "int option"

definition DEFAULT_PADDING :: int where "DEFAULT_PADDING = 0"
definition DEFAULT_MARGIN :: int where "DEFAULT_MARGIN = 0"
definition DEFAULT_SEP :: int where "DEFAULT_SEP = 8"

definition Widget_init :: widget where
  "Widget_init =
     \<lparr> content_halign = XL, content_valign = YT,
       vmargin = DEFAULT_MARGIN, hmargin = DEFAULT_MARGIN,
       vpadding = DEFAULT_PADDING, hpadding = DEFAULT_PADDING,
       self_w = None, self_h = None, self_offset = (0, 0),
       offset_xanchor = XL, offset_yanchor = YT,
       calc_w = None, calc_h = None \<rparr>"

definition set_content_align :: "string \<Rightarrow> 'a widget_scheme \<Rightarrow> error + 'a widget_scheme" where
  "set_content_align align wd =
     (case ALIGN_MAP align of
        None \<Rightarrow> Inl ValueError
      | Some (ha, va) \<Rightarrow> Inr (wd\<lparr> content_halign := ha, content_valign := va \<rparr>))"

definition set_offset_anchor :: "string \<Rightarrow> 'a widget_scheme \<Rightarrow> error + 'a widget_scheme" where
  "set_offset_anchor anchor wd =
     (case ALIGN_MAP anchor of
        None \<Rightarrow> Inl ValueError
      | Some (xa, ya) \<Rightarrow> Inr (wd\<lparr> offset_xanchor := xa, offset_yanchor := ya \<rparr>))"

text \<open>\<^verbatim>\<open>set_margin\<close> and \<^verbatim>\<open>set_padding\<close> take an int (\<open>Inl\<close>) or a pair
  (horizontal, vertical) (\<open>Inr\<close>).\<close>

definition set_margin :: "int + int \<times> int \<Rightarrow> 'a widget_scheme \<Rightarrow> 'a widget_scheme" where
  "set_margin margin wd =
     (case margin of
        Inl m \<Rightarrow> wd\<lparr> vmargin := m, hmargin := m \<rparr>
      | Inr (mh, mv) \<Rightarrow> wd\<lparr> hmargin := mh, vmargin := mv \<rparr>)"

definition set_padding :: "int + int \<times> int \<Rightarrow> 'a widget_scheme \<Rightarrow> 'a widget_scheme" where
  "set_padding padding wd =
     (case padding of
        Inl m \<Rightarrow> wd\<lparr> vpadding := m, hpadding := m \<rparr>
      | Inr (ph, pv) \<Rightarrow> wd\<lparr> hpadding := ph, vpadding := pv \<rparr>)"

text \<open>\<^verbatim>\<open>if not size: size = (None, None)\<close>: \<^verbatim>\<open>None\<close> is the only falsy argument
  among pairs and \<^verbatim>\<open>None\<close>.\<close>

definition set_size :: "(int option \<times> int option) option \<Rightarrow> 'a widget_scheme \<Rightarrow> 'a widget_scheme" where
  "set_size sz wd =
     (case sz of
        None \<Rightarrow> wd\<lparr> self_w := None, self_h := None \<rparr>
      | Some (a, b) \<Rightarrow> wd\<lparr> self_w := a, self_h := b \<rparr>)"

definition set_w :: "int option \<Rightarrow> 'a widget_scheme \<Rightarrow> 'a widget_scheme" where
  "set_w a wd = wd\<lparr> self_w := a \<rparr>"

definition set_h :: "int option \<Rightarrow> 'a widget_scheme \<Rightarrow> 'a widget_scheme" where
  "set_h a wd = wd\<lparr> self_h := a \<rparr>"

definition set_offset :: "Position \<Rightarrow> 'a widget_scheme \<Rightarrow> 'a widget_scheme" where
  "set_offset off wd = wd\<lparr> self_offset := off \<rparr>"

text \<open>Python truthiness of an optional int: \<^verbatim>\<open>None\<close> and \<^verbatim>\<open>0\<close> are falsy.\<close>

definition truthy :: "int option \<Rightarrow> bool" where
  "truthy v = (case v of None \<Rightarrow> False | Some n \<Rightarrow> n \<noteq> 0)"

text \<open>\<^verbatim>\<open>Widget._get_content_size\<close> of the base class.\<close>

definition Widget_get_content_size :: "'a widget_scheme \<Rightarrow> error + Size" where
  "Widget_get_content_size wd = Inr (0, 0)"

text \<open>
  \<^verbatim>\<open>Widget._get_self_size\<close>. The subclass's \<^verbatim>\<open>_get_content_size\<close> is the
  parameter \<open>cs\<close>; it is only called when \<^verbatim>\<open>all([self._calc_w, self._calc_h])\<close>
  is false. The result carries the widget with its cache filled.
\<close>

definition get_self_size ::
  "('a widget_scheme \<Rightarrow> error + Size) \<Rightarrow> 'a widget_scheme \<Rightarrow> error + Size \<times> 'a widget_scheme" where
  "get_self_size cs wd =
     (if \<not> (truthy (calc_w wd) \<and> truthy (calc_h wd)) then
        (case cs wd of
           Inl e \<Rightarrow> Inl e
         | Inr (content_w, content_h) \<Rightarrow>
             (let content_w_limit =
                    (case self_w wd of Some a \<Rightarrow> a - hpadding wd * 2 | None \<Rightarrow> content_w);
                  content_h_limit =
                    (case self_h wd of Some b \<Rightarrow> b - vpadding wd * 2 | None \<Rightarrow> content_h)
              in if content_w > content_w_limit \<or> content_h > content_h_limit
                 then Inl ValueError
                 else (let cw' = content_w_limit + hmargin wd * 2 + hpadding wd * 2;
                           ch' = content_h_limit + vmargin wd * 2 + vpadding wd * 2
                       in Inr ((cw', ch'), wd\<lparr> calc_w := Some cw', calc_h := Some ch' \<rparr>))))
      else
        (case (calc_w wd, calc_h wd) of
           (Some a, Some b) \<Rightarrow> Inr ((a, b), wd)
         | _ \<Rightarrow> Inl TypeError))"

text \<open>\<^verbatim>\<open>Widget._get_content_pos\<close>.\<close>

definition get_content_pos ::
  "('a widget_scheme \<Rightarrow> error + Size) \<Rightarrow> 'a widget_scheme \<Rightarrow> error + Position \<times> 'a widget_scheme" where
  "get_content_pos cs wd =
     (case get_self_size cs wd of
        Inl e \<Rightarrow> Inl e
      | Inr ((sw, sh), wd1) \<Rightarrow>
          (let w' = sw - (hpadding wd1 * 2 + hmargin wd1 * 2);
               h' = sh - (vpadding wd1 * 2 + vmargin wd1 * 2)
           in case cs wd1 of
                Inl e \<Rightarrow> Inl e
              | Inr (cw, ch) \<Rightarrow>
                  (let cx = (case content_halign wd1 of
                               XL \<Rightarrow> 0 | XR \<Rightarrow> w' - cw | XC \<Rightarrow> (w' - cw) div 2);
                       cy = (case content_valign wd1 of
                               YT \<Rightarrow> 0 | YB \<Rightarrow> h' - ch | YC \<Rightarrow> (h' - ch) div 2)
                   in Inr ((cx, cy), wd1))))"

text \<open>
  \<^verbatim>\<open>Widget.draw\<close>. \<open>draw_self\<close> is what \<^verbatim>\<open>_draw_self\<close> (background and draw
  hooks) does to the painter and \<open>draw_content\<close> what the subclass's
  \<^verbatim>\<open>_draw_content\<close> does; both may raise. \<open>draw_enter\<close> is the part of the method up
  to the call of \<^verbatim>\<open>_draw_content\<close>: it returns the painter handed to it.
\<close>

definition draw_enter ::
  "('a widget_scheme \<Rightarrow> error + Size) \<Rightarrow> (painter \<Rightarrow> error + painter) \<Rightarrow>
     'a widget_scheme \<Rightarrow> painter \<Rightarrow> error + painter \<times> 'a widget_scheme" where
  "draw_enter cs draw_self wd p =
     (case get_self_size cs wd of
        Inl e \<Rightarrow> Inl e
      | Inr (ss, wd1) \<Rightarrow>
          if p_size p \<noteq> ss then Inl AssertionError
          else
            (let offset_x = (case offset_xanchor wd1 of
                               XL \<Rightarrow> fst (self_offset wd1)
                             | XR \<Rightarrow> fst (self_offset wd1) - p_w p
                             | XC \<Rightarrow> fst (self_offset wd1) - p_w p div 2);
                 offset_y = (case offset_yanchor wd1 of
                               YT \<Rightarrow> snd (self_offset wd1)
                             | YB \<Rightarrow> snd (self_offset wd1) - p_h p
                             | YC \<Rightarrow> snd (self_offset wd1) - p_h p div 2);
                 p1 = move_region (offset_x, offset_y) None p;
                 p2 = shrink_region (hmargin wd1, vmargin wd1) p1
             in case draw_self p2 of
                  Inl e \<Rightarrow> Inl e
                | Inr p3 \<Rightarrow>
                    (let p4 = shrink_region (hpadding wd1, vpadding wd1) p3
                     in case get_content_pos cs wd1 of
                          Inl e \<Rightarrow> Inl e
                        | Inr ((cx, cy), wd2) \<Rightarrow> Inr (move_region (cx, cy) None p4, wd2))))"

definition Widget_draw ::
  "('a widget_scheme \<Rightarrow> error + Size) \<Rightarrow> (painter \<Rightarrow> error + painter) \<Rightarrow>
     (painter \<Rightarrow> error + painter) \<Rightarrow> 'a widget_scheme \<Rightarrow> painter \<Rightarrow>
     error + painter \<times> 'a widget_scheme" where
  "Widget_draw cs draw_self draw_content wd p =
     (case draw_enter cs draw_self wd p of
        Inl e \<Rightarrow> Inl e
      | Inr (p5, wd2) \<Rightarrow>
          (case draw_content p5 of
             Inl e \<Rightarrow> Inl e
           | Inr p6 \<Rightarrow> Inr (restore_region 4 p6, wd2)))"

text \<open>The part of the painter that the region operations manage.\<close>

definition region_state :: "painter \<Rightarrow> Position \<times> Size \<times> (Position \<times> Size) list" where
  "region_state p = (p_offset p, p_size p, region_stack p)"

text \<open>A drawing step keeps the region when, whenever it returns, offset, size and
  stack are what they were.\<close>

definition keeps_region :: "(painter \<Rightarrow> error + painter) \<Rightarrow> bool" where
  "keeps_region f = (\<forall>q q'. f q = Inr q' \<longrightarrow> region_state q' = region_state q)"

text \<open>\<^verbatim>\<open>_draw_self\<close> of a widget with no background and no draw hook, and
  \<^verbatim>\<open>Widget._draw_content\<close> (\<^verbatim>\<open>pass\<close>).\<close>

definition draw_nothing :: "painter \<Rightarrow> error + painter" where
  "draw_nothing p = Inr p"

section \<open>Spacer\<close>

definition Spacer_init :: "int \<Rightarrow> int \<Rightarrow> widget" where
  "Spacer_init a b = set_size (Some (Some a, Some b)) Widget_init"

text \<open>\<^verbatim>\<open>Spacer._get_content_size\<close>: \<^verbatim>\<open>self.w - 2 * self.hpadding\<close> raises
  \<^verbatim>\<open>TypeError\<close> when the size has been reset to \<^verbatim>\<open>None\<close>.\<close>

definition Spacer_get_content_size :: "'a widget_scheme \<Rightarrow> error + Size" where
  "Spacer_get_content_size wd =
     (case (self_w wd, self_h wd) of
        (Some a, Some b) \<Rightarrow> Inr (a - 2 * hpadding wd, b - 2 * vpadding wd)
      | _ \<Rightarrow> Inl TypeError)"

section \<open>Python floats\<close>

text \<open>
  Python's \<^verbatim>\<open>float\<close> is the IEEE-754 binary64 format. A finite float is modelled by
  the real number it denotes; \<open>fl\<close> rounds a real number to the nearest float, ties
  to the even significand, for magnitudes in the normal range (no overflow and no
  subnormal numbers: the sizes of this program are far inside that range).
  \<open>fl_shift x\<close> is a shift \<open>s\<close> with \<open>2^52 \<le> |x| * 2^s \<le> 2^53\<close>, so that the
  significand has 53 bits.
\<close>

definition round_half_even :: "real \<Rightarrow> int" where
  "round_half_even x =
     (let f = \<lfloor>x\<rfloor>; d = x - of_int f
      in if d < 1 / 2 then f
         else if d > 1 / 2 then f + 1
         else if even f then f else f + 1)"

definition pow2 :: "int \<Rightarrow> real" where
  "pow2 k = (if 0 \<le> k then 2 ^ nat k else 1 / 2 ^ nat (- k))"

definition fl_shift :: "real \<Rightarrow> int" where
  "fl_shift x =
     (if 1 \<le> \<bar>x\<bar> then 53 - int (floorlog 2 (nat \<lfloor>\<bar>x\<bar>\<rfloor>))
      else 52 + int (floorlog 2 (nat \<lfloor>1 / \<bar>x\<bar>\<rfloor>)))"

definition fl :: "real \<Rightarrow> real" where
  "fl x = (if x = 0 then 0
           else of_int (round_half_even (x * pow2 (fl_shift x))) / pow2 (fl_shift x))"

text \<open>\<^verbatim>\<open>a / b\<close> on two ints is the correctly rounded quotient; \<^verbatim>\<open>x * n\<close> with a
  float and an int converts the int (exactly, below \<open>2^53\<close>) and rounds the product;
  \<^verbatim>\<open>int(x)\<close> truncates towards zero.\<close>

definition py_truediv :: "int \<Rightarrow> int \<Rightarrow> error + real" where
  "py_truediv a b = (if b = 0 then Inl ZeroDivisionError else Inr (fl (of_int a / of_int b)))"

definition py_fmul :: "real \<Rightarrow> real \<Rightarrow> real" where
  "py_fmul x y = fl (x * y)"

definition py_int :: "real \<Rightarrow> int" where
  "py_int x = (if 0 \<le> x then \<lfloor>x\<rfloor> else \<lceil>x\<rceil>)"

section \<open>Grid\<close>

text \<open>
  \<^verbatim>\<open>class Grid\<close>. An item enters the layout through \<^verbatim>\<open>item._get_self_size()\<close>
  only, so \<open>items\<close> holds, for each child in insertion order, the outcome of that call
  (the size, or the error it raises).
\<close>

record grid = widget +
  items :: "(error + Size) list"
  row_count :: "int option"
  col_count :: "int option"
  item_size_mode :: string
  hsep :: int
  vsep :: int
  item_halign :: xalign
  item_valign :: yalign
  vertical :: bool

definition Grid_init ::
  "(error + Size) list \<Rightarrow> int option \<Rightarrow> int option \<Rightarrow> string \<Rightarrow> string \<Rightarrow> int \<Rightarrow> int \<Rightarrow> bool
     \<Rightarrow> error + grid" where
  "Grid_init its rc cc mode item_align hs vs vert =
     (if truthy rc \<and> truthy cc then Inl AssertionError
      else if mode \<notin> {''expand'', ''fixed''} then Inl AssertionError
      else case ALIGN_MAP item_align of
             None \<Rightarrow> Inl ValueError
           | Some (ha, va) \<Rightarrow>
               Inr (widget.extend Widget_init
                      \<lparr> items = its, row_count = rc, col_count = cc, item_size_mode = mode,
                        hsep = hs, vsep = vs, item_halign = ha, item_valign = va,
                        vertical = vert \<rparr>))"

definition set_row_count :: "int option \<Rightarrow> grid \<Rightarrow> grid" where
  "set_row_count n g = g\<lparr> row_count := n, col_count := None \<rparr>"

definition set_col_count :: "int option \<Rightarrow> grid \<Rightarrow> grid" where
  "set_col_count n g = g\<lparr> col_count := n, row_count := None \<rparr>"

definition set_vertical :: "bool \<Rightarrow> grid \<Rightarrow> grid" where
  "set_vertical v g = g\<lparr> vertical := v \<rparr>"

text \<open>The first four lines of \<^verbatim>\<open>Grid._get_grid_rc_and_size\<close>: the row and column
  counts. Python's \<^verbatim>\<open>//\<close> on ints is floor division, as \<open>div\<close> on \<open>int\<close>.\<close>

definition Grid_rc :: "grid \<Rightarrow> error + int \<times> int" where
  "Grid_rc g =
     (let r = row_count g; c = col_count g; n = int (length (items g))
      in if \<not> (truthy r \<and> \<not> truthy c \<or> truthy c \<and> \<not> truthy r) then Inl AssertionError
         else case (r, c) of
                (Some r', Some c') \<Rightarrow>
                  (let r1 = (if r' = 0 then (n + c' - 1) div c' else r');
                       c1 = (if c' = 0 then (n + r1 - 1) div r1 else c')
                   in Inr (r1, c1))
              | (None, Some c') \<Rightarrow> Inr ((n + c' - 1) div c', c')
              | (Some r', None) \<Rightarrow> Inr (r', (n + r' - 1) div r')
              | (None, None) \<Rightarrow> Inl AssertionError)"

fun max_item_size :: "(error + Size) list \<Rightarrow> Size \<Rightarrow> error + Size" where
  "max_item_size [] g = Inr g"
| "max_item_size (Inl e # xs) g = Inl e"
| "max_item_size (Inr (iw, ih) # xs) (gw, gh) = max_item_size xs (max gw iw, max gh ih)"

definition Grid_get_grid_rc_and_size :: "grid \<Rightarrow> error + (int \<times> int) \<times> Size" where
  "Grid_get_grid_rc_and_size g =
     (case Grid_rc g of
        Inl e \<Rightarrow> Inl e
      | Inr (r, c) \<Rightarrow>
          if item_size_mode g = ''expand'' then
            (case (self_w g, self_h g) of
               (Some w, Some h) \<Rightarrow>
                 (case py_truediv (w - hsep g * (c - 1) - hpadding g * 2) c of
                    Inl e \<Rightarrow> Inl e
                  | Inr gw \<Rightarrow>
                      (case py_truediv (h - vsep g * (r - 1) - vpadding g * 2) r of
                         Inl e \<Rightarrow> Inl e
                       | Inr gh \<Rightarrow> Inr ((r, c), (py_int gw, py_int gh))))
             | _ \<Rightarrow> Inl AssertionError)
          else
            (case max_item_size (items g) (0, 0) of
               Inl e \<Rightarrow> Inl e
             | Inr sz \<Rightarrow> Inr ((r, c), sz)))"

definition Grid_get_content_size :: "grid \<Rightarrow> error + Size" where
  "Grid_get_content_size g =
     (case Grid_get_grid_rc_and_size g of
        Inl e \<Rightarrow> Inl e
      | Inr ((r, c), (gw, gh)) \<Rightarrow>
          Inr (c * gw + hsep g * (c - 1), r * gh + vsep g * (r - 1)))"

text \<open>\<^verbatim>\<open>Grid._draw_content\<close>: the cell \<open>(i, j)\<close> (row, column) of the item at index
  \<open>idx\<close>. \<^verbatim>\<open>//\<close> and \<^verbatim>\<open>%\<close> raise on a zero divisor.\<close>

definition grid_cell :: "bool \<Rightarrow> int \<Rightarrow> int \<Rightarrow> int \<Rightarrow> error + int \<times> int" where
  "grid_cell vert r c idx =
     (if \<not> vert then (if c = 0 then Inl ZeroDivisionError else Inr (idx div c, idx mod c))
      else (if r = 0 then Inl ZeroDivisionError else Inr (idx mod r, idx div r)))"

text \<open>
  The loop of \<^verbatim>\<open>Grid._draw_content\<close> from index \<open>idx\<close> on. Each entry of the list is
  a child: its self size and what its \<^verbatim>\<open>draw\<close> does to the painter. \<open>item_bg\<close> is
  what the item background (if any, and not omitted by the child) does.
\<close>

fun Grid_draw_items ::
  "grid \<Rightarrow> int \<times> int \<Rightarrow> Size \<Rightarrow> (painter \<Rightarrow> error + painter) \<Rightarrow> int
     \<Rightarrow> (Size \<times> (painter \<Rightarrow> error + painter)) list \<Rightarrow> painter \<Rightarrow> error + painter" where
  "Grid_draw_items g rc gsz item_bg idx [] p = Inr p"
| "Grid_draw_items g rc gsz item_bg idx (((iw, ih), item_draw) # rest) p =
     (case grid_cell (vertical g) (fst rc) (snd rc) idx of
        Inl e \<Rightarrow> Inl e
      | Inr (i, j) \<Rightarrow>
          (let gw = fst gsz; gh = snd gsz;
               x = j * (gw + hsep g);
               y = i * (gh + vsep g);
               p1 = move_region (x, y) (Some (gw, gh)) p
           in case item_bg p1 of
                Inl e \<Rightarrow> Inl e
              | Inr p2 \<Rightarrow>
                  (let x' = (case item_halign g of
                               XL \<Rightarrow> 0 | XR \<Rightarrow> gw - iw | XC \<Rightarrow> (gw - iw) div 2);
                       y' = (case item_valign g of
                               YT \<Rightarrow> 0 | YB \<Rightarrow> gh - ih | YC \<Rightarrow> (gh - ih) div 2);
                       p3 = move_region (x', y') (Some (iw, ih)) p2
                   in case item_draw p3 of
                        Inl e \<Rightarrow> Inl e
                      | Inr p4 \<Rightarrow>
                          Grid_draw_items g rc gsz item_bg (idx + 1) rest (restore_region 2 p4))))"

section \<open>TextBox\<close>

text \<open>
  \<^verbatim>\<open>class TextBox\<close>. A Python \<^verbatim>\<open>str\<close> is a sequence of code points; a \<open>string\<close>
  of the model has one \<open>char\<close> per code point. The width that
  \<^verbatim>\<open>get_text_size(font, s)\<close> reports comes from the font file through PIL: it is the
  parameter \<open>tw\<close> of the functions below (the font is taken to exist).
\<close>

record textbox = widget +
  tb_text :: string
  style_size :: int
  line_count :: int
  line_sep :: int
  wrap :: bool
  overflow :: string
  use_real_line_count :: bool

definition TextBox_init ::
  "string \<Rightarrow> int \<Rightarrow> int option \<Rightarrow> int \<Rightarrow> bool \<Rightarrow> string \<Rightarrow> bool \<Rightarrow> error + textbox" where
  "TextBox_init txt font_size lc sep wr ov use_real =
     (if ov \<notin> {''shrink'', ''clip''} then Inl AssertionError
      else
        Inr (set_margin (Inl 0) (set_padding (Inl 2)
              (widget.extend Widget_init
                 \<lparr> tb_text = txt, style_size = font_size,
                   line_count = (case lc of
                                   None \<Rightarrow> (if use_real then 99999 else 1)
                                 | Some n \<Rightarrow> n),
                   line_sep = sep, wrap = wr, overflow = ov,
                   use_real_line_count = use_real \<rparr>))))"

definition set_line_count :: "int \<Rightarrow> textbox \<Rightarrow> textbox" where
  "set_line_count n tb = tb\<lparr> line_count := n \<rparr>"

definition set_wrap :: "bool \<Rightarrow> textbox \<Rightarrow> textbox" where
  "set_wrap b tb = tb\<lparr> wrap := b \<rparr>"

definition set_overflow :: "string \<Rightarrow> textbox \<Rightarrow> error + textbox" where
  "set_overflow ov tb =
     (if ov \<notin> {''shrink'', ''clip''} then Inl AssertionError else Inr (tb\<lparr> overflow := ov \<rparr>))"

text \<open>Python slices \<^verbatim>\<open>xs[:i]\<close> and \<^verbatim>\<open>xs[i:]\<close>: a negative index counts from the
  end, and both ends are clamped to the list.\<close>

definition py_slice_to :: "int \<Rightarrow> 'a list \<Rightarrow> 'a list" where
  "py_slice_to i xs = (if i < 0 then take (nat (int (length xs) + i)) xs else take (nat i) xs)"

definition py_slice_from :: "int \<Rightarrow> 'a list \<Rightarrow> 'a list" where
  "py_slice_from i xs = (if i < 0 then drop (nat (int (length xs) + i)) xs else drop (nat i) xs)"

text \<open>\<^verbatim>\<open>str.split('\n')\<close>.\<close>

fun split_nl :: "string \<Rightarrow> string list" where
  "split_nl [] = [[]]"
| "split_nl (c # cs) =
     (if c = CHR 0x0A then [] # split_nl cs
      else (case split_nl cs of
              [] \<Rightarrow> [[c]]
            | x # xs \<Rightarrow> (c # x) # xs))"

text \<open>The \<^verbatim>\<open>while l <= r\<close> loop of \<^verbatim>\<open>TextBox._get_clip_text_to_width_idx\<close>.\<close>

function clip_search :: "(string \<Rightarrow> int) \<Rightarrow> string \<Rightarrow> int \<Rightarrow> string \<Rightarrow> int \<Rightarrow> int \<Rightarrow> int" where
  "clip_search tw txt width suffix l r =
     (if l \<le> r then
        (let m = (l + r) div 2;
             w = tw (py_slice_to m txt @ suffix)
         in if w < width then clip_search tw txt width suffix (m + 1) r
            else if w > width then clip_search tw txt width suffix l (m - 1)
            else m)
      else r)"
  by pat_completeness auto
termination
  by (relation "measure (\<lambda>(tw, txt, width, suffix, l, r). nat (r - l + 1))") auto

declare clip_search.simps [simp del]

definition get_clip_text_to_width_idx :: "(string \<Rightarrow> int) \<Rightarrow> string \<Rightarrow> int \<Rightarrow> string \<Rightarrow> int option" where
  "get_clip_text_to_width_idx tw txt width suffix =
     (if tw (txt @ suffix) \<le> width then None
      else Some (clip_search tw txt width suffix 0 (int (length txt))))"

text \<open>
  The \<^verbatim>\<open>while True\<close> loop of \<^verbatim>\<open>TextBox._get_lines\<close> for one line of the text.
  Nothing bounds its iterations: \<open>None\<close> is the result when it never leaves the loop.
\<close>

partial_function (option) wrap_loop ::
  "(string \<Rightarrow> int) \<Rightarrow> int \<Rightarrow> string \<Rightarrow> int \<Rightarrow> string \<Rightarrow> string list \<Rightarrow> string list option" where
  "wrap_loop tw w suffix lc line clipped_lines =
     (case get_clip_text_to_width_idx tw line w
             (if int (length clipped_lines) = lc - 1 then suffix else []) of
        None \<Rightarrow> Some (clipped_lines @ [line])
      | Some clip_idx \<Rightarrow>
          (if int (length (clipped_lines @
                 [py_slice_to clip_idx line @
                  (if int (length clipped_lines) = lc - 1 then suffix else [])])) = lc
           then Some (clipped_lines @
                 [py_slice_to clip_idx line @
                  (if int (length clipped_lines) = lc - 1 then suffix else [])])
           else wrap_loop tw w suffix lc (py_slice_from clip_idx line)
                  (clipped_lines @
                    [py_slice_to clip_idx line @
                     (if int (length clipped_lines) = lc - 1 then suffix else [])])))"

declare wrap_loop.simps [code]

text \<open>The \<^verbatim>\<open>for line in lines\<close> loop of \<^verbatim>\<open>TextBox._get_lines\<close>.\<close>

fun get_lines_loop ::
  "(string \<Rightarrow> int) \<Rightarrow> textbox \<Rightarrow> string list \<Rightarrow> string list \<Rightarrow> string list option" where
  "get_lines_loop tw tb [] clipped_lines = Some clipped_lines"
| "get_lines_loop tw tb (line # rest) clipped_lines =
     (case self_w tb of
        None \<Rightarrow> get_lines_loop tw tb rest (clipped_lines @ [line])
      | Some a \<Rightarrow>
          if a = 0 then get_lines_loop tw tb rest (clipped_lines @ [line])
          else
            (let w = a - hpadding tb * 2;
                 suffix = (if overflow tb = ''shrink'' then ''...'' else [])
             in if wrap tb then
                  (case wrap_loop tw w suffix (line_count tb) line clipped_lines of
                     None \<Rightarrow> None
                   | Some clipped_lines' \<Rightarrow> get_lines_loop tw tb rest clipped_lines')
                else
                  (case get_clip_text_to_width_idx tw line w suffix of
                     None \<Rightarrow> get_lines_loop tw tb rest (clipped_lines @ [line])
                   | Some clip_idx \<Rightarrow>
                       get_lines_loop tw tb rest
                         (clipped_lines @ [py_slice_to clip_idx line @ suffix]))))"

definition get_lines :: "(string \<Rightarrow> int) \<Rightarrow> textbox \<Rightarrow> string list option" where
  "get_lines tw tb =
     (case get_lines_loop tw tb (split_nl (tb_text tb)) [] of
        None \<Rightarrow> None
      | Some clipped_lines \<Rightarrow> Some (py_slice_to (line_count tb) clipped_lines))"

text \<open>A width measure is monotone when inserting characters never makes a string
  narrower, and subadditive when a string is at most as wide as its two parts together.
  \<open>fixed_width c\<close> is the measure of a font whose glyphs all have the advance \<open>c\<close>.\<close>

definition mono_measure :: "(string \<Rightarrow> int) \<Rightarrow> bool" where
  "mono_measure tw = (\<forall>s u v. tw (s @ v) \<le> tw (s @ u @ v))"

definition subadditive_measure :: "(string \<Rightarrow> int) \<Rightarrow> bool" where
  "subadditive_measure tw = (\<forall>s u. tw (s @ u) \<le> tw s + tw u)"

definition fixed_width :: "int \<Rightarrow> string \<Rightarrow> int" where
  "fixed_width c s = c * int (length s)"

section \<open>ImageBox\<close>

text \<open>\<^verbatim>\<open>class ImageBox\<close>. Of the bitmap only its size enters the layout.\<close>

record imagebox = widget +
  image_size :: Size
  image_size_mode :: string

definition set_image_size_mode :: "string \<Rightarrow> imagebox \<Rightarrow> error + imagebox" where
  "set_image_size_mode mode b =
     (if mode \<notin> {''fit'', ''fill'', ''original''} then Inl AssertionError
      else Inr (b\<lparr> image_size_mode := mode \<rparr>))"

text \<open>\<^verbatim>\<open>ImageBox.__init__(image, image_size_mode, size)\<close>; the attribute
  \<^verbatim>\<open>image_size_mode\<close> does not exist before the constructor sets it.\<close>

definition ImageBox_init ::
  "Size \<Rightarrow> string option \<Rightarrow> (int option \<times> int option) option \<Rightarrow> error + imagebox" where
  "ImageBox_init img mode sz =
     (let b0 = widget.extend Widget_init \<lparr> image_size = img, image_size_mode = [] \<rparr>;
          b1 = (case sz of None \<Rightarrow> b0 | Some s \<Rightarrow> set_size (Some s) b0);
          m = (case mode of
                 Some m' \<Rightarrow> m'
               | None \<Rightarrow>
                   (if (case sz of None \<Rightarrow> False | Some (a, b) \<Rightarrow> truthy a \<or> truthy b)
                    then ''fit'' else ''original''))
      in case set_image_size_mode m b1 of
           Inl e \<Rightarrow> Inl e
         | Inr b2 \<Rightarrow> Inr (set_padding (Inl 0) (set_margin (Inl 0) b2)))"

text \<open>\<^verbatim>\<open>self.w - self.hpadding * 2 if self.w else 1000000\<close>.\<close>

definition fit_bound :: "int option \<Rightarrow> int \<Rightarrow> int" where
  "fit_bound a pad = (case a of None \<Rightarrow> 1000000 | Some n \<Rightarrow> if n = 0 then 1000000 else n - pad * 2)"

definition ImageBox_get_content_size :: "imagebox \<Rightarrow> error + Size" where
  "ImageBox_get_content_size b =
     (let w = fst (image_size b); h = snd (image_size b)
      in if image_size_mode b = ''original'' then Inr (w, h)
         else if image_size_mode b = ''fit'' then
           (if self_w b = None \<and> self_h b = None then Inl AssertionError
            else
              (let tw = fit_bound (self_w b) (hpadding b);
                   th = fit_bound (self_h b) (vpadding b)
               in case py_truediv tw w of
                    Inl e \<Rightarrow> Inl e
                  | Inr sw \<Rightarrow>
                      (case py_truediv th h of
                         Inl e \<Rightarrow> Inl e
                       | Inr sh \<Rightarrow>
                           (let scale = min sw sh
                            in Inr (py_int (py_fmul (of_int w) scale),
                                    py_int (py_fmul (of_int h) scale))))))
         else if image_size_mode b = ''fill'' then
           (if self_w b = None \<and> self_h b = None then Inl AssertionError
            else
              (case (self_w b, self_h b) of
                 (Some a, Some c) \<Rightarrow>
                   if a \<noteq> 0 \<and> c \<noteq> 0 then Inr (a - hpadding b * 2, c - vpadding b * 2)
                   else
                     (case py_truediv (fit_bound (self_w b) (hpadding b)) w of
                        Inl e \<Rightarrow> Inl e
                      | Inr sw \<Rightarrow>
                          (case py_truediv (fit_bound (self_h b) (vpadding b)) h of
                             Inl e \<Rightarrow> Inl e
                           | Inr sh \<Rightarrow>
                               Inr (py_int (py_fmul (of_int w) (max sw sh)),
                                    py_int (py_fmul (of_int h) (max sw sh)))))
               | _ \<Rightarrow>
                   (case py_truediv (fit_bound (self_w b) (hpadding b)) w of
                      Inl e \<Rightarrow> Inl e
                    | Inr sw \<Rightarrow>
                        (case py_truediv (fit_bound (self_h b) (vpadding b)) h of
                           Inl e \<Rightarrow> Inl e
                         | Inr sh \<Rightarrow>
                             Inr (py_int (py_fmul (of_int w) (max sw sh)),
                                  py_int (py_fmul (of_int h) (max sw sh)))))))
         else Inl TypeError)"

section \<open>HSplit\<close>

text \<open>
  \<^verbatim>\<open>class HSplit\<close> (\<^verbatim>\<open>VSplit\<close> is the same code with the axes exchanged). As for
  the grid, \<open>hs_items\<close> holds the outcome of \<^verbatim>\<open>item._get_self_size()\<close> for each child.
  \<open>ratios\<close> is \<^verbatim>\<open>None\<close> or a list of floats; \<^verbatim>\<open>None\<close> and the empty list are falsy.
\<close>

record hsplit = widget +
  hs_items :: "(error + Size) list"
  ratios :: "real list option"
  hs_sep :: int
  hs_item_size_mode :: string
  hs_item_halign :: xalign
  hs_item_valign :: yalign

definition HSplit_init ::
  "(error + Size) list \<Rightarrow> real list option \<Rightarrow> int \<Rightarrow> string \<Rightarrow> string \<Rightarrow> error + hsplit" where
  "HSplit_init its rs sp mode item_align =
     (if mode \<notin> {''expand'', ''fixed''} then Inl AssertionError
      else case ALIGN_MAP item_align of
             None \<Rightarrow> Inl ValueError
           | Some (ha, va) \<Rightarrow>
               Inr (widget.extend Widget_init
                      \<lparr> hs_items = its, ratios = rs, hs_sep = sp, hs_item_size_mode = mode,
                        hs_item_halign = ha, hs_item_valign = va \<rparr>))"

fun item_sizes :: "(error + Size) list \<Rightarrow> error + Size list" where
  "item_sizes [] = Inr []"
| "item_sizes (Inl e # xs) = Inl e"
| "item_sizes (Inr s # xs) = (case item_sizes xs of Inl e \<Rightarrow> Inl e | Inr ss \<Rightarrow> Inr (s # ss))"

text \<open>The loop of the \<^verbatim>\<open>fixed\<close> mode over \<^verbatim>\<open>zip(ratios, self.items)\<close>.\<close>

fun fixed_unit_w :: "(real \<times> (error + Size)) list \<Rightarrow> real \<Rightarrow> error + real" where
  "fixed_unit_w [] unit_w = Inr unit_w"
| "fixed_unit_w ((r, Inl e) # xs) unit_w = Inl e"
| "fixed_unit_w ((r, Inr (iw, ih)) # xs) unit_w =
     fixed_unit_w xs (if r > 0 then max unit_w (fl (of_int iw / r)) else unit_w)"

text \<open>\<^verbatim>\<open>sum(ratios)\<close> adds from the left, rounding each partial sum.\<close>

definition float_sum :: "real list \<Rightarrow> real" where
  "float_sum rs = foldl (\<lambda>a r. fl (a + r)) 0 rs"

definition HSplit_get_item_sizes :: "hsplit \<Rightarrow> error + Size list" where
  "HSplit_get_item_sizes hs =
     (case (case ratios hs of
              None \<Rightarrow> map_sum id (map (\<lambda>s. of_int (fst s))) (item_sizes (hs_items hs))
            | Some rs \<Rightarrow>
                if rs = [] then map_sum id (map (\<lambda>s. of_int (fst s))) (item_sizes (hs_items hs))
                else Inr rs) of
        Inl e \<Rightarrow> Inl e
      | Inr rs \<Rightarrow>
          (case (if hs_item_size_mode hs = ''expand'' then
                   (case self_w hs of
                      None \<Rightarrow> Inl AssertionError
                    | Some w \<Rightarrow>
                        if float_sum rs = 0 then Inl ZeroDivisionError
                        else Inr (fl (of_int (w - hs_sep hs * (int (length rs) - 1) - hpadding hs * 2)
                                       / float_sum rs)))
                 else fixed_unit_w (zip rs (hs_items hs)) 0) of
             Inl e \<Rightarrow> Inl e
           | Inr unit_w \<Rightarrow>
               (case item_sizes (hs_items hs) of
                  Inl e \<Rightarrow> Inl e
                | Inr [] \<Rightarrow> Inl ValueError
                | Inr (s # ss) \<Rightarrow>
                    Inr (map (\<lambda>r. (py_int (fl (unit_w * r)), foldl max (snd s) (map snd ss)))
                           (take (length (hs_items hs)) rs)))))"

definition HSplit_get_content_size :: "hsplit \<Rightarrow> error + Size" where
  "HSplit_get_content_size hs =
     (if hs_items hs = [] then Inr (0, 0)
      else case HSplit_get_item_sizes hs of
             Inl e \<Rightarrow> Inl e
           | Inr [] \<Rightarrow> Inl ValueError
           | Inr (s # ss) \<Rightarrow>
               Inr (sum_list (map fst (s # ss)) + hs_sep hs * (int (length (s # ss)) - 1),
                    foldl max (snd s) (map snd ss)))"

section \<open>Frame and Canvas\<close>

record frame = widget +
  fr_items :: "(error + Size) list"

definition Frame_init :: frame where
  "Frame_init = widget.extend Widget_init \<lparr> fr_items = [] \<rparr>"

definition add_item :: "error + Size \<Rightarrow> frame \<Rightarrow> frame" where
  "add_item item fr = fr\<lparr> fr_items := fr_items fr @ [item] \<rparr>"

definition Frame_get_content_size :: "frame \<Rightarrow> error + Size" where
  "Frame_get_content_size fr = max_item_size (fr_items fr) (0, 0)"

text \<open>The loop of \<^verbatim>\<open>Frame._draw_content\<close>; each child is given by its self size and
  by what its \<^verbatim>\<open>draw\<close> does to the painter.\<close>

fun Frame_draw_items ::
  "frame \<Rightarrow> Size \<Rightarrow> (Size \<times> (painter \<Rightarrow> error + painter)) list \<Rightarrow> painter \<Rightarrow> error + painter" where
  "Frame_draw_items fr csz [] p = Inr p"
| "Frame_draw_items fr csz (((w, h), item_draw) # rest) p =
     (let x = (case content_halign fr of
                 XL \<Rightarrow> 0 | XR \<Rightarrow> fst csz - w | XC \<Rightarrow> (fst csz - w) div 2);
          y = (case content_valign fr of
                 YT \<Rightarrow> 0 | YB \<Rightarrow> snd csz - h | YC \<Rightarrow> (snd csz - h) div 2)
      in case item_draw (move_region (x, y) (Some (w, h)) p) of
           Inl e \<Rightarrow> Inl e
         | Inr p' \<Rightarrow> Frame_draw_items fr csz rest (restore_region 1 p'))"

definition Canvas_init :: "int option \<Rightarrow> int option \<Rightarrow> frame" where
  "Canvas_init w h = set_margin (Inl 0) (set_size (Some (w, h)) Frame_init)"

text \<open>
  What the program uses of a PIL image: its mode and its size. \<^verbatim>\<open>Image.new\<close>
  rejects a negative size; \<^verbatim>\<open>resize\<close> returns a copy when the size is unchanged and
  rejects a size below 1 otherwise.
\<close>

record image =
  im_mode :: string
  im_size :: Size

definition Image_new :: "string \<Rightarrow> Size \<Rightarrow> error + image" where
  "Image_new mode sz =
     (if fst sz < 0 \<or> snd sz < 0 then Inl ValueError else Inr \<lparr> im_mode = mode, im_size = sz \<rparr>)"

definition Image_resize :: "Size \<Rightarrow> image \<Rightarrow> error + image" where
  "Image_resize sz img =
     (if im_size img = sz then Inr img
      else if fst sz < 1 \<or> snd sz < 1 then Inl ValueError
      else Inr (img\<lparr> im_size := sz \<rparr>))"

text \<open>
  \<^verbatim>\<open>Canvas.get_img(scale)\<close>. \<open>draw_self\<close> and \<open>draw_content\<close> are the drawing of
  the background and of the children. The second component of the result lists the
  sizes of the pixel buffers allocated during the call, in order. \<^verbatim>\<open>if scale:\<close> is
  false for \<^verbatim>\<open>None\<close> and for \<open>0\<close>.
\<close>

definition Canvas_get_img ::
  "(painter \<Rightarrow> error + painter) \<Rightarrow> (painter \<Rightarrow> error + painter) \<Rightarrow> real option \<Rightarrow> frame
     \<Rightarrow> (error + image) \<times> Size list" where
  "Canvas_get_img draw_self draw_content scale cv =
     (case get_self_size Frame_get_content_size cv of
        Inl e \<Rightarrow> (Inl e, [])
      | Inr (sz, cv1) \<Rightarrow>
          if \<not> (fst sz * snd sz < 4096 * 4096) then (Inl AssertionError, [])
          else
            (case Image_new ''RGBA'' sz of
               Inl e \<Rightarrow> (Inl e, [])
             | Inr img \<Rightarrow>
                 (case Widget_draw Frame_get_content_size draw_self draw_content cv1
                         (Painter_init (im_size img)) of
                    Inl e \<Rightarrow> (Inl e, [sz])
                  | Inr (p, cv2) \<Rightarrow>
                      (case scale of
                         None \<Rightarrow> (Inr img, [sz])
                       | Some s \<Rightarrow>
                           if s = 0 then (Inr img, [sz])
                           else
                             (case Image_resize (py_int (py_fmul (of_int (fst sz)) s),
                                                 py_int (py_fmul (of_int (snd sz)) s)) img of
                                Inl e \<Rightarrow> (Inl e, [sz])
                              | Inr img' \<Rightarrow> (Inr img', [sz, im_size img']))))))"

text \<open>A drawing step that never raises.\<close>

definition never_raises :: "(painter \<Rightarrow> error + painter) \<Rightarrow> bool" where
  "never_raises f = (\<forall>q. \<exists>q'. f q = Inr q')"

section \<open>Gradients\<close>

text \<open>
  \<^verbatim>\<open>LinearGradient\<close> and \<^verbatim>\<open>RadialGradient\<close> compute with numpy \<^verbatim>\<open>float64\<close>
  arrays; every arithmetic operation on an element rounds with \<open>fl\<close>. A colour is the
  list of its channels. \<^verbatim>\<open>np.clip(x, lo, hi)\<close> is \<open>min (max x lo) hi\<close>, and
  \<^verbatim>\<open>astype(np.uint8)\<close> truncates towards zero (a value outside \<open>0..255\<close> wraps
  modulo 256 on the usual platforms). A division by zero yields an infinity or a NaN in
  numpy rather than an error; the model has no such values and gives \<open>None\<close> for the
  pixel in that case.
\<close>

definition clip :: "real \<Rightarrow> real \<Rightarrow> real \<Rightarrow> real" where
  "clip x lo hi = min (max x lo) hi"

definition to_uint8 :: "real \<Rightarrow> int" where
  "to_uint8 v = py_int v mod 256"

record linear_gradient =
  lg_c1 :: "int list"
  lg_c2 :: "int list"
  lg_p1 :: "real \<times> real"
  lg_p2 :: "real \<times> real"


text \<open>\<^verbatim>\<open>LinearGradient.get_colors\<close>: the clamped parameter \<open>t\<close> of the pixel
  \<open>(x, y)\<close> and the colour for a value of \<open>t\<close>.\<close>

definition linear_t :: "linear_gradient \<Rightarrow> Size \<Rightarrow> int \<times> int \<Rightarrow> real option" where
  "linear_t g sz xy =
     (let p1x = fl (fst (lg_p1 g) * of_int (fst sz)); p1y = fl (snd (lg_p1 g) * of_int (snd sz));
          p2x = fl (fst (lg_p2 g) * of_int (fst sz)); p2y = fl (snd (lg_p2 g) * of_int (snd sz));
          gx = fl (p2x - p1x); gy = fl (p2y - p1y);
          length_sq = fl (fl (gx * gx) + fl (gy * gy));
          vx = fl (of_int (fst xy) - p1x); vy = fl (of_int (snd xy) - p1y);
          dot_product = fl (fl (vx * gx) + fl (vy * gy))
      in if length_sq = 0 then None
         else Some (clip (fl (dot_product / length_sq)) 0 1))"

definition linear_mix :: "int list \<Rightarrow> int list \<Rightarrow> real \<Rightarrow> int list" where
  "linear_mix c1 c2 t =
     map2 (\<lambda>a b. to_uint8 (clip (fl (fl (fl (1 - t) * of_int a) + fl (t * of_int b))) 0 255))
       c1 c2"

definition LinearGradient_pixel :: "linear_gradient \<Rightarrow> Size \<Rightarrow> int \<times> int \<Rightarrow> int list option" where
  "LinearGradient_pixel g sz xy = map_option (linear_mix (lg_c1 g) (lg_c2 g)) (linear_t g sz xy)"






definition LinearGradient_get_colors :: "linear_gradient \<Rightarrow> Size \<Rightarrow> int list option list list" where
  "LinearGradient_get_colors g sz =
     map (\<lambda>y. map (\<lambda>x. LinearGradient_pixel g sz (int x, int y)) [0..<nat (fst sz)])
       [0..<nat (snd sz)]"


section \<open>Region operations: shrink then expand\<close>

lemma set_region_fields:
  "p_offset (set_region pos sz p) = pos"
  "p_size (set_region pos sz p) = sz"
  "p_w (set_region pos sz p) = fst sz"
  "p_h (set_region pos sz p) = snd sz"
  "region_stack (set_region pos sz p) = (p_offset p, p_size p) # region_stack p"
  "img_size (set_region pos sz p) = img_size p"
  by (simp_all add: set_region_def)

text \<open>
  Claim C9. For every painter state and every integer delta \<open>(dx, dy)\<close>,
  \<^verbatim>\<open>shrink_region\<close> adds the delta to the offset and subtracts twice the delta from
  the size, \<^verbatim>\<open>expand_region\<close> does the inverse, and the two calls in sequence leave
  offset and size as they were while the region stack has grown by two entries.
\<close>

theorem shrink_expand_region_roundtrip:
  "p_offset (shrink_region (dx, dy) p) = (fst (p_offset p) + dx, snd (p_offset p) + dy)
   \<and> p_size (shrink_region (dx, dy) p) = (fst (p_size p) - 2 * dx, snd (p_size p) - 2 * dy)
   \<and> p_offset (expand_region (dx, dy) q) = (fst (p_offset q) - dx, snd (p_offset q) - dy)
   \<and> p_size (expand_region (dx, dy) q) = (fst (p_size q) + 2 * dx, snd (p_size q) + 2 * dy)
   \<and> p_offset (expand_region (dx, dy) (shrink_region (dx, dy) p)) = p_offset p
   \<and> p_size (expand_region (dx, dy) (shrink_region (dx, dy) p)) = p_size p
   \<and> region_stack (expand_region (dx, dy) (shrink_region (dx, dy) p))
       = [(p_offset (shrink_region (dx, dy) p), p_size (shrink_region (dx, dy) p)),
          (p_offset p, p_size p)] @ region_stack p
   \<and> length (region_stack (expand_region (dx, dy) (shrink_region (dx, dy) p)))
       = length (region_stack p) + 2"
  by (simp add: shrink_region_def expand_region_def set_region_fields)

section \<open>Self size of a widget\<close>

text \<open>
  Claim C1 (as amended). On a widget whose size cache is not populated (a cached extent
  is \<^verbatim>\<open>None\<close> or \<open>0\<close>), \<^verbatim>\<open>_get_self_size\<close> takes on each axis the explicit
  extent minus twice the padding when \<^verbatim>\<open>w\<close> (resp. \<^verbatim>\<open>h\<close>) is set and the content
  extent otherwise, and returns it plus twice the padding plus twice the margin, as long
  as the content does not exceed that limit; when the content exceeds the limit on an
  axis it raises \<^verbatim>\<open>ValueError\<close>. Once both cached extents are populated it returns
  the cached pair, without measuring and without raising.
\<close>

theorem get_self_size_first_measurement:
  "(\<not> (truthy (calc_w wd) \<and> truthy (calc_h wd)) \<and> cs wd = Inr (cw, ch)
      \<and> lw = (case self_w wd of Some a \<Rightarrow> a - 2 * hpadding wd | None \<Rightarrow> cw)
      \<and> lh = (case self_h wd of Some b \<Rightarrow> b - 2 * vpadding wd | None \<Rightarrow> ch)
    \<longrightarrow> (cw \<le> lw \<and> ch \<le> lh \<longrightarrow>
           get_self_size cs wd =
             Inr ((lw + 2 * hpadding wd + 2 * hmargin wd, lh + 2 * vpadding wd + 2 * vmargin wd),
                  wd\<lparr> calc_w := Some (lw + 2 * hpadding wd + 2 * hmargin wd),
                      calc_h := Some (lh + 2 * vpadding wd + 2 * vmargin wd) \<rparr>))
        \<and> (cw > lw \<or> ch > lh \<longrightarrow> get_self_size cs wd = Inl ValueError))
   \<and> (calc_w wd = Some a \<and> calc_h wd = Some b \<and> a \<noteq> 0 \<and> b \<noteq> 0
        \<longrightarrow> get_self_size cs wd = Inr ((a, b), wd))"
  by (auto simp: get_self_size_def truthy_def Let_def split: option.splits)

theorem get_self_size_first_measurement_witness:
  "get_self_size Spacer_get_content_size (set_padding (Inl 2) (set_margin (Inl 3) (Spacer_init 10 10)))
     = Inr ((16, 16), (set_padding (Inl 2) (set_margin (Inl 3) (Spacer_init 10 10)))
                         \<lparr> calc_w := Some 16, calc_h := Some 16 \<rparr>)
   \<and> get_self_size (\<lambda>wd. Inr (7, 3)) (set_padding (Inl 2) (Spacer_init 10 10)) = Inl ValueError
   \<and> get_self_size (\<lambda>wd. Inr (7, 3)) ((Spacer_init 10 10)\<lparr> calc_w := Some 4, calc_h := Some 5 \<rparr>)
       = Inr ((4, 5), (Spacer_init 10 10)\<lparr> calc_w := Some 4, calc_h := Some 5 \<rparr>)"
  using get_self_size_first_measurement
          [of "set_padding (Inl 2) (set_margin (Inl 3) (Spacer_init 10 10))"
              Spacer_get_content_size 6 6 6 6 0 0]
        get_self_size_first_measurement
          [of "set_padding (Inl 2) (Spacer_init 10 10)" "\<lambda>wd. Inr (7, 3)" 7 3 6 6 0 0]
        get_self_size_first_measurement
          [of "(Spacer_init 10 10)\<lparr> calc_w := Some 4, calc_h := Some 5 \<rparr>" "\<lambda>wd. Inr (7, 3)" 7 3 6 6 4 5]
  by (simp add: Spacer_get_content_size_def Spacer_init_def set_size_def set_padding_def
      set_margin_def Widget_init_def truthy_def DEFAULT_MARGIN_def DEFAULT_PADDING_def)

text \<open>
  The claim as stated quantifies over every widget. A \<^verbatim>\<open>Spacer(10, 10)\<close> that has
  been measured once and is then resized with \<^verbatim>\<open>set_size((20, 20))\<close> has content
  size \<open>(20, 20)\<close>, no padding and no margin, and still reports the self size
  \<open>(10, 10)\<close>.
\<close>

theorem get_self_size_stale_cache_counterexample:
  "get_self_size Spacer_get_content_size (Spacer_init 10 10)
     = Inr ((10, 10), (Spacer_init 10 10)\<lparr> calc_w := Some 10, calc_h := Some 10 \<rparr>)
   \<and> Spacer_get_content_size
        (set_size (Some (Some 20, Some 20)) ((Spacer_init 10 10)\<lparr> calc_w := Some 10, calc_h := Some 10 \<rparr>))
     = Inr (20, 20)
   \<and> get_self_size Spacer_get_content_size
        (set_size (Some (Some 20, Some 20)) ((Spacer_init 10 10)\<lparr> calc_w := Some 10, calc_h := Some 10 \<rparr>))
     = Inr ((10, 10),
            set_size (Some (Some 20, Some 20)) ((Spacer_init 10 10)\<lparr> calc_w := Some 10, calc_h := Some 10 \<rparr>))"
  by (simp add: get_self_size_def Spacer_get_content_size_def Spacer_init_def set_size_def
      Widget_init_def truthy_def DEFAULT_MARGIN_def DEFAULT_PADDING_def)

section \<open>Drawing a widget keeps the region stack balanced\<close>

lemma restore_region_4:
  "restore_region 4 p = restore_once (restore_once (restore_once (restore_once p)))"
  by (simp add: restore_region.simps Let_def)

lemma restore_once_Cons:
  "region_stack p = (off, sz) # rest \<Longrightarrow>
     region_state (restore_once p) = (off, sz, rest)"
  by (simp add: restore_once_def region_state_def)


lemma draw_enter_stack:
  assumes ks: "keeps_region draw_self"
    and en: "draw_enter cs draw_self wd p = Inr (p5, wd')"
  shows "\<exists>r2 r3 r4. region_stack p5 = [r4, r3, r2, (p_offset p, p_size p)] @ region_stack p"
proof -
  from en obtain ss wd1 where ss: "get_self_size cs wd = Inr (ss, wd1)"
    by (auto simp: draw_enter_def split: sum.splits)
  define ox where "ox = (case offset_xanchor wd1 of
                               XL \<Rightarrow> fst (self_offset wd1)
                             | XR \<Rightarrow> fst (self_offset wd1) - p_w p
                             | XC \<Rightarrow> fst (self_offset wd1) - p_w p div 2)"
  define oy where "oy = (case offset_yanchor wd1 of
                               YT \<Rightarrow> snd (self_offset wd1)
                             | YB \<Rightarrow> snd (self_offset wd1) - p_h p
                             | YC \<Rightarrow> snd (self_offset wd1) - p_h p div 2)"
  define p2 where "p2 = shrink_region (hmargin wd1, vmargin wd1) (move_region (ox, oy) None p)"
  from en ss obtain p3 where p3: "draw_self p2 = Inr p3"
    by (auto simp: draw_enter_def Let_def p2_def ox_def oy_def split: sum.splits if_splits)
  from en ss p3 obtain cx cy where
    p5: "p5 = move_region (cx, cy) None (shrink_region (hpadding wd1, vpadding wd1) p3)"
    by (auto simp: draw_enter_def Let_def p2_def ox_def oy_def split: sum.splits if_splits)
  from ks p3 have "region_state p3 = region_state p2"
    by (simp add: keeps_region_def)
  then have "region_stack p3 = region_stack p2"
    by (simp add: region_state_def)
  then show ?thesis
    by (simp add: p5 p2_def move_region_def shrink_region_def set_region_def)
qed

text \<open>
  Claim C2. \<^verbatim>\<open>draw(painter)\<close> fails its assertion when the painter's region size
  differs from the widget's self size. When the background, the draw hooks and the
  subclass's \<^verbatim>\<open>_draw_content\<close> leave the region as they found it, a call
  that returns has pushed exactly four regions by the time \<^verbatim>\<open>_draw_content\<close> runs
  (the lowest being the caller's region) and \<^verbatim>\<open>restore_region(4)\<close> pops these
  four: offset, size and stack depth are what they were before the call.
\<close>

theorem Widget_draw_region_balanced:
  assumes ks: "keeps_region draw_self" and kc: "keeps_region draw_content"
  shows "(\<forall>ss wd1. get_self_size cs wd = Inr (ss, wd1) \<and> p_size p \<noteq> ss
            \<longrightarrow> Widget_draw cs draw_self draw_content wd p = Inl AssertionError)
       \<and> (\<forall>p' wd'. Widget_draw cs draw_self draw_content wd p = Inr (p', wd')
            \<longrightarrow> (\<exists>wd1. get_self_size cs wd = Inr (p_size p, wd1))
              \<and> (\<exists>p5 p6 r2 r3 r4.
                    draw_enter cs draw_self wd p = Inr (p5, wd')
                  \<and> region_stack p5 = [r4, r3, r2, (p_offset p, p_size p)] @ region_stack p
                  \<and> draw_content p5 = Inr p6
                  \<and> region_stack p6 = region_stack p5
                  \<and> p' = restore_region 4 p6)
              \<and> p_offset p' = p_offset p
              \<and> p_size p' = p_size p
              \<and> region_stack p' = region_stack p
              \<and> length (region_stack p') = length (region_stack p))"
proof (intro conjI allI impI)
  fix ss wd1
  assume "get_self_size cs wd = Inr (ss, wd1) \<and> p_size p \<noteq> ss"
  then show "Widget_draw cs draw_self draw_content wd p = Inl AssertionError"
    by (simp add: Widget_draw_def draw_enter_def)
next
  fix p' wd'
  assume dr: "Widget_draw cs draw_self draw_content wd p = Inr (p', wd')"
  then obtain p5 p6 where en: "draw_enter cs draw_self wd p = Inr (p5, wd')"
    and dc: "draw_content p5 = Inr p6" and p': "p' = restore_region 4 p6"
    by (auto simp: Widget_draw_def split: sum.splits)
  from draw_enter_stack [OF ks en] obtain r2 r3 r4 where
    st5: "region_stack p5 = [r4, r3, r2, (p_offset p, p_size p)] @ region_stack p"
    by blast
  from kc dc have "region_state p6 = region_state p5"
    by (simp add: keeps_region_def)
  then have st6: "region_stack p6 = region_stack p5"
    by (simp add: region_state_def)
  have rs: "region_state p' = region_state p"
    unfolding p' restore_region_4 using st6 st5
    by (cases r2; cases r3; cases r4)
       (simp add: restore_once_def region_state_def)
  show "\<exists>wd1. get_self_size cs wd = Inr (p_size p, wd1)"
    using en
    by (auto simp: draw_enter_def Let_def split: sum.splits if_splits prod.splits)
  show "\<exists>p5 p6 r2 r3 r4.
          draw_enter cs draw_self wd p = Inr (p5, wd')
        \<and> region_stack p5 = [r4, r3, r2, (p_offset p, p_size p)] @ region_stack p
        \<and> draw_content p5 = Inr p6
        \<and> region_stack p6 = region_stack p5
        \<and> p' = restore_region 4 p6"
    using en st5 dc st6 p' by blast
  show "p_offset p' = p_offset p" "p_size p' = p_size p" "region_stack p' = region_stack p"
    "length (region_stack p') = length (region_stack p)"
    using rs by (simp_all add: region_state_def)
qed

theorem Widget_draw_region_balanced_witness:
  "keeps_region draw_nothing
   \<and> (\<exists>p' wd'. Widget_draw Spacer_get_content_size draw_nothing draw_nothing
                 (set_padding (Inl 2) (set_margin (Inl 3) (Spacer_init 10 10)))
                 (set_region (5, 7) (16, 16) (Painter_init (100, 50))) = Inr (p', wd')
         \<and> p_offset p' = (5, 7) \<and> p_size p' = (16, 16)
         \<and> region_stack p' = [((0, 0), (100, 50))])"
proof -
  have k: "keeps_region draw_nothing"
    by (simp add: keeps_region_def draw_nothing_def)
  have "\<exists>p' wd'. Widget_draw Spacer_get_content_size draw_nothing draw_nothing
                 (set_padding (Inl 2) (set_margin (Inl 3) (Spacer_init 10 10)))
                 (set_region (5, 7) (16, 16) (Painter_init (100, 50))) = Inr (p', wd')"
    by (simp add: Widget_draw_def draw_enter_def get_content_pos_def get_self_size_def
        Spacer_get_content_size_def Spacer_init_def set_size_def set_padding_def set_margin_def
        Widget_init_def truthy_def DEFAULT_MARGIN_def DEFAULT_PADDING_def draw_nothing_def
        set_region_def Painter_init_def Let_def)
  then obtain p' wd' where
    d: "Widget_draw Spacer_get_content_size draw_nothing draw_nothing
                 (set_padding (Inl 2) (set_margin (Inl 3) (Spacer_init 10 10)))
                 (set_region (5, 7) (16, 16) (Painter_init (100, 50))) = Inr (p', wd')"
    by blast
  from Widget_draw_region_balanced [OF k k, of Spacer_get_content_size
      "set_padding (Inl 2) (set_margin (Inl 3) (Spacer_init 10 10))"
      "set_region (5, 7) (16, 16) (Painter_init (100, 50))"] d
  have "p_offset p' = (5, 7) \<and> p_size p' = (16, 16)
         \<and> region_stack p' = [((0, 0), (100, 50))]"
    by (simp add: set_region_def Painter_init_def)
  with k d show ?thesis by blast
qed

section \<open>Grid: derived row count and cell of an item\<close>








section \<open>TextBox: clipping a line to a width\<close>

lemma clip_search_inv:
  "(\<forall>i j. 0 \<le> i \<and> i \<le> j \<and> j \<le> int (length str)
          \<longrightarrow> tw (take (nat i) str @ suffix) \<le> tw (take (nat j) str @ suffix))
   \<Longrightarrow> 0 \<le> l \<Longrightarrow> r \<le> int (length str) \<Longrightarrow> l \<le> r + 1
   \<Longrightarrow> (\<forall>i. 0 \<le> i \<and> i < l \<longrightarrow> tw (take (nat i) str @ suffix) < width)
   \<Longrightarrow> (\<forall>i. r < i \<and> i \<le> int (length str) \<longrightarrow> width < tw (take (nat i) str @ suffix))
   \<Longrightarrow> (0 \<le> clip_search tw str width suffix l r
          \<and> clip_search tw str width suffix l r \<le> int (length str)
          \<and> tw (take (nat (clip_search tw str width suffix l r)) str @ suffix) = width)
       \<or> (l - 1 \<le> clip_search tw str width suffix l r
          \<and> clip_search tw str width suffix l r \<le> r
          \<and> (\<forall>i. 0 \<le> i \<and> i \<le> clip_search tw str width suffix l r
                 \<longrightarrow> tw (take (nat i) str @ suffix) < width)
          \<and> (\<forall>i. clip_search tw str width suffix l r < i \<and> i \<le> int (length str)
                 \<longrightarrow> width < tw (take (nat i) str @ suffix)))"
proof (induction tw str width suffix l r rule: clip_search.induct)
  case (1 tw str width suffix l r)
  let ?f = "\<lambda>i. tw (take (nat i) str @ suffix)"
  let ?n = "int (length str)"
  note mono = "1.prems"(1) and l0 = "1.prems"(2) and rn = "1.prems"(3) and lr = "1.prems"(4)
    and lo = "1.prems"(5) and hi = "1.prems"(6)
  show ?case
  proof (cases "l \<le> r")
    case False
    then have eq: "clip_search tw str width suffix l r = r"
      by (simp add: clip_search.simps)
    from False lr have "l = r + 1" by simp
    with lo hi show ?thesis unfolding eq by auto
  next
    case True
    define m where "m = (l + r) div 2"
    have m: "l \<le> m" "m \<le> r" using True by (simp_all add: m_def)
    then have m0: "0 \<le> m" "m \<le> ?n" using l0 rn by simp_all
    have sl: "py_slice_to m str = take (nat m) str"
      using m0 by (simp add: py_slice_to_def)
    consider (less) "?f m < width" | (greater) "width < ?f m" | (equal) "?f m = width"
      by linarith
    then show ?thesis
    proof cases
      case less
      then have eq: "clip_search tw str width suffix l r = clip_search tw str width suffix (m + 1) r"
        using True by (subst clip_search.simps) (simp add: Let_def m_def [symmetric] sl)
      have lo': "\<forall>i. 0 \<le> i \<and> i < m + 1 \<longrightarrow> ?f i < width"
      proof (intro allI impI)
        fix i assume "0 \<le> i \<and> i < m + 1"
        then have "?f i \<le> ?f m" using mono m0 by simp
        with less show "?f i < width" by simp
      qed
      have "(0 \<le> clip_search tw str width suffix (m + 1) r
          \<and> clip_search tw str width suffix (m + 1) r \<le> ?n
          \<and> ?f (clip_search tw str width suffix (m + 1) r) = width)
       \<or> (m + 1 - 1 \<le> clip_search tw str width suffix (m + 1) r
          \<and> clip_search tw str width suffix (m + 1) r \<le> r
          \<and> (\<forall>i. 0 \<le> i \<and> i \<le> clip_search tw str width suffix (m + 1) r \<longrightarrow> ?f i < width)
          \<and> (\<forall>i. clip_search tw str width suffix (m + 1) r < i \<and> i \<le> ?n \<longrightarrow> width < ?f i))"
        using True less m m0 rn
        by (intro "1.IH"(1) [OF True m_def refl _ mono _ rn _ lo' hi])
           (simp_all add: sl)
      then show ?thesis unfolding eq using m by auto
    next
      case greater
      then have eq: "clip_search tw str width suffix l r = clip_search tw str width suffix l (m - 1)"
        using True by (subst clip_search.simps) (simp add: Let_def m_def [symmetric] sl)
      have hi': "\<forall>i. m - 1 < i \<and> i \<le> ?n \<longrightarrow> width < ?f i"
      proof (intro allI impI)
        fix i assume "m - 1 < i \<and> i \<le> ?n"
        then have "?f m \<le> ?f i" using mono m0 by simp
        with greater show "width < ?f i" by simp
      qed
      have "(0 \<le> clip_search tw str width suffix l (m - 1)
          \<and> clip_search tw str width suffix l (m - 1) \<le> ?n
          \<and> ?f (clip_search tw str width suffix l (m - 1)) = width)
       \<or> (l - 1 \<le> clip_search tw str width suffix l (m - 1)
          \<and> clip_search tw str width suffix l (m - 1) \<le> m - 1
          \<and> (\<forall>i. 0 \<le> i \<and> i \<le> clip_search tw str width suffix l (m - 1) \<longrightarrow> ?f i < width)
          \<and> (\<forall>i. clip_search tw str width suffix l (m - 1) < i \<and> i \<le> ?n \<longrightarrow> width < ?f i))"
        using True greater m m0 rn
        by (intro "1.IH"(2) [OF True m_def refl _ _ mono l0 _ _ lo hi'])
           (simp_all add: sl)
      then show ?thesis unfolding eq using m by auto
    next
      case equal
      then have eq: "clip_search tw str width suffix l r = m"
        using True by (subst clip_search.simps) (simp add: Let_def m_def [symmetric] sl)
      show ?thesis unfolding eq using equal m0 by simp
    qed
  qed
qed

lemma mono_measure_prefix:
  assumes "mono_measure tw" "i \<le> j"
  shows "tw (take i str @ suffix) \<le> tw (take j str @ suffix)"
proof -
  have "take j str = take i str @ drop i (take j str)"
    using assms(2) by (metis append_take_drop_id min.absorb1 take_take)
  then have "tw (take j str @ suffix) = tw (take i str @ drop i (take j str) @ suffix)"
    by (metis append.assoc)
  moreover have "tw (take i str @ suffix) \<le> tw (take i str @ drop i (take j str) @ suffix)"
    using assms(1) by (simp add: mono_measure_def)
  ultimately show ?thesis by simp
qed

lemma get_clip_fits:
  assumes mono: "mono_measure tw"
    and over: "width < tw (str @ suffix)"
    and sfx: "tw suffix \<le> width"
  shows "\<exists>k. get_clip_text_to_width_idx tw str width suffix = Some (int k)
            \<and> k < length str
            \<and> tw (take k str @ suffix) \<le> width
            \<and> width \<le> tw (take (Suc k) str @ suffix)"
proof -
  let ?f = "\<lambda>i. tw (take (nat i) str @ suffix)"
  let ?n = "int (length str)"
  define k where "k = clip_search tw str width suffix 0 ?n"
  have pm: "\<forall>i j. 0 \<le> i \<and> i \<le> j \<and> j \<le> ?n \<longrightarrow> ?f i \<le> ?f j"
  proof (intro allI impI)
    fix i j :: int
    assume "0 \<le> i \<and> i \<le> j \<and> j \<le> ?n"
    then have "nat i \<le> nat j" by linarith
    with mono show "?f i \<le> ?f j" by (rule mono_measure_prefix)
  qed
  have "(0 \<le> k \<and> k \<le> ?n \<and> ?f k = width)
       \<or> (0 - 1 \<le> k \<and> k \<le> ?n
          \<and> (\<forall>i. 0 \<le> i \<and> i \<le> k \<longrightarrow> ?f i < width)
          \<and> (\<forall>i. k < i \<and> i \<le> ?n \<longrightarrow> width < ?f i))"
    unfolding k_def by (rule clip_search_inv [OF pm]) simp_all
  then have k: "0 \<le> k \<and> k \<le> ?n \<and> ?f k \<le> width
                \<and> (k < ?n \<longrightarrow> width \<le> ?f (k + 1))"
  proof (elim disjE)
    assume a: "0 \<le> k \<and> k \<le> ?n \<and> ?f k = width"
    have "?f k \<le> ?f (k + 1)" if "k < ?n"
    proof -
      from a that have "0 \<le> k \<and> k \<le> k + 1 \<and> k + 1 \<le> ?n" by simp
      with pm show ?thesis by blast
    qed
    with a show ?thesis by auto
  next
    assume a: "0 - 1 \<le> k \<and> k \<le> ?n
          \<and> (\<forall>i. 0 \<le> i \<and> i \<le> k \<longrightarrow> ?f i < width)
          \<and> (\<forall>i. k < i \<and> i \<le> ?n \<longrightarrow> width < ?f i)"
    have k0: "0 \<le> k"
    proof (rule ccontr)
      assume "\<not> 0 \<le> k"
      then have "k < 0 \<and> 0 \<le> ?n" by simp
      with a have "width < ?f 0" by blast
      with sfx show False by simp
    qed
    with a have "0 \<le> k \<and> k \<le> k" by simp
    with a have "?f k < width" by blast
    then have fk: "?f k \<le> width" by simp
    have nx: "width \<le> ?f (k + 1)" if "k < ?n"
    proof -
      from that have "k < k + 1 \<and> k + 1 \<le> ?n" by simp
      with a have "width < ?f (k + 1)" by blast
      then show ?thesis by simp
    qed
    from a have "k \<le> ?n" by simp
    with k0 fk nx show ?thesis by blast
  qed
  have "k \<noteq> ?n"
  proof
    assume "k = ?n"
    with k have "tw (str @ suffix) \<le> width" by simp
    with over show False by simp
  qed
  with k have kn: "k < ?n" by simp
  have "get_clip_text_to_width_idx tw str width suffix = Some (int (nat k))"
    using over k by (simp add: get_clip_text_to_width_idx_def k_def)
  moreover have "nat k < length str" using kn k by linarith
  moreover have "tw (take (nat k) str @ suffix) \<le> width" using k by simp
  moreover have "width \<le> tw (take (Suc (nat k)) str @ suffix)"
  proof -
    have "Suc (nat k) = nat (k + 1)" using k by linarith
    with k kn show ?thesis by simp
  qed
  ultimately show ?thesis by blast
qed

lemma split_nl_no_newline: "CHR 0x0A \<notin> set s \<Longrightarrow> split_nl s = [s]"
  by (induction s) auto

lemma subadditive_nonneg: "subadditive_measure tw \<Longrightarrow> 0 \<le> tw []"
  unfolding subadditive_measure_def
proof -
  assume "\<forall>s u. tw (s @ u) \<le> tw s + tw u"
  then have "tw ([] @ []) \<le> tw [] + tw []" by blast
  then show ?thesis by simp
qed

lemma wrap_two_lines:
  assumes mono: "mono_measure tw" and sub: "subadditive_measure tw"
    and ell: "tw suffix \<le> W" and long: "2 * W < tw t"
  shows "\<exists>k1 k2. wrap_loop tw W suffix 2 t [] = Some [take k1 t, take k2 (drop k1 t) @ suffix]
           \<and> k1 < length t \<and> k2 < length (drop k1 t)
           \<and> tw (take k1 t) \<le> W \<and> tw (take k2 (drop k1 t) @ suffix) \<le> W
           \<and> W \<le> tw (take (Suc k1) t)
           \<and> W \<le> tw (take (Suc k2) (drop k1 t) @ suffix)"
proof -
  have e0: "0 \<le> tw []" using sub by (rule subadditive_nonneg)
  have "tw ([] @ []) \<le> tw ([] @ suffix @ [])"
    using mono unfolding mono_measure_def by blast
  then have e1: "tw [] \<le> W" using ell by simp
  with e0 long have over1: "W < tw (t @ [])" by simp
  from get_clip_fits [OF mono over1] e1
  obtain k1 where k1: "get_clip_text_to_width_idx tw t W [] = Some (int k1)"
    "k1 < length t" "tw (take k1 t) \<le> W" "W \<le> tw (take (Suc k1) t)"
    by auto
  have "tw (take k1 t @ drop k1 t) \<le> tw (take k1 t) + tw (drop k1 t)"
    using sub unfolding subadditive_measure_def by blast
  with long k1(3) have r1: "W < tw (drop k1 t)" by simp
  have "tw (drop k1 t @ []) \<le> tw (drop k1 t @ suffix @ [])"
    using mono unfolding mono_measure_def by blast
  with r1 have over2: "W < tw (drop k1 t @ suffix)" by simp
  from get_clip_fits [OF mono over2 ell]
  obtain k2 where k2: "get_clip_text_to_width_idx tw (drop k1 t) W suffix = Some (int k2)"
    "k2 < length (drop k1 t)" "tw (take k2 (drop k1 t) @ suffix) \<le> W"
    "W \<le> tw (take (Suc k2) (drop k1 t) @ suffix)"
    by auto
  have step2: "wrap_loop tw W suffix 2 (drop k1 t) [take k1 t]
                 = Some [take k1 t, take k2 (drop k1 t) @ suffix]"
    by (subst wrap_loop.simps) (simp add: k2(1) py_slice_to_def)
  have "wrap_loop tw W suffix 2 t [] = wrap_loop tw W suffix 2 (drop k1 t) [take k1 t]"
    by (subst wrap_loop.simps) (simp add: k1(1) py_slice_to_def py_slice_from_def)
  with step2 k1 k2 show ?thesis by auto
qed

lemma mono_fixed_width: "0 \<le> c \<Longrightarrow> mono_measure (fixed_width c)"
  by (simp add: mono_measure_def fixed_width_def mult_left_mono)

lemma subadditive_fixed_width: "subadditive_measure (fixed_width c)"
  by (simp add: subadditive_measure_def fixed_width_def algebra_simps)

section \<open>TextBox: wrapping into two lines\<close>

text \<open>
  Claim C3 (as amended). For a \<^verbatim>\<open>TextBox\<close> with an explicit non-zero width,
  \<^verbatim>\<open>wrap=true\<close>, \<^verbatim>\<open>line_count=2\<close>, \<^verbatim>\<open>overflow='shrink'\<close>, a text without line
  breaks whose rendered width exceeds twice the available width \<open>W\<close>, a width measure
  that is monotone and subadditive, and an available width that holds at least the
  ellipsis: \<^verbatim>\<open>_get_lines\<close> returns exactly two lines, a prefix of the text and a
  prefix of the remainder followed by the ellipsis; both fit the available width, and
  neither could take one more character and stay narrower than \<open>W\<close>.
\<close>

theorem TextBox_two_lines_ellipsis:
  assumes w: "self_w tb = Some a" "a \<noteq> 0" and W: "W = a - hpadding tb * 2"
    and cfg: "wrap tb" "line_count tb = 2" "overflow tb = ''shrink''"
    and nl: "CHR 0x0A \<notin> set (tb_text tb)"
    and mono: "mono_measure tw" and sub: "subadditive_measure tw"
    and ell: "tw ''...'' \<le> W" and long: "2 * W < tw (tb_text tb)"
  shows "\<exists>k1 k2. get_lines tw tb
             = Some [take k1 (tb_text tb), take k2 (drop k1 (tb_text tb)) @ ''...'']
           \<and> k1 < length (tb_text tb) \<and> k2 < length (drop k1 (tb_text tb))
           \<and> tw (take k1 (tb_text tb)) \<le> W
           \<and> tw (take k2 (drop k1 (tb_text tb)) @ ''...'') \<le> W
           \<and> W \<le> tw (take (Suc k1) (tb_text tb))
           \<and> W \<le> tw (take (Suc k2) (drop k1 (tb_text tb)) @ ''...'')"
proof -
  from wrap_two_lines [OF mono sub ell long]
  obtain k1 k2 where
    wl: "wrap_loop tw W ''...'' 2 (tb_text tb) []
           = Some [take k1 (tb_text tb), take k2 (drop k1 (tb_text tb)) @ ''...'']"
    and rest: "k1 < length (tb_text tb) \<and> k2 < length (drop k1 (tb_text tb))
           \<and> tw (take k1 (tb_text tb)) \<le> W
           \<and> tw (take k2 (drop k1 (tb_text tb)) @ ''...'') \<le> W
           \<and> W \<le> tw (take (Suc k1) (tb_text tb))
           \<and> W \<le> tw (take (Suc k2) (drop k1 (tb_text tb)) @ ''...'')"
    by blast
  have "get_lines_loop tw tb [tb_text tb] []
          = Some [take k1 (tb_text tb), take k2 (drop k1 (tb_text tb)) @ ''...'']"
    using w cfg wl unfolding W by (simp add: Let_def)
  then have "get_lines tw tb
          = Some [take k1 (tb_text tb), take k2 (drop k1 (tb_text tb)) @ ''...'']"
    using cfg(2) by (simp add: get_lines_def split_nl_no_newline [OF nl] py_slice_to_def)
  with rest show ?thesis by blast
qed

theorem TextBox_two_lines_ellipsis_witness:
  "(case TextBox_init ''abcdefghijklmnopqrstuvwxyz'' 16 (Some 2) 2 True ''shrink'' False of
      Inl e \<Rightarrow> False
    | Inr tb0 \<Rightarrow>
        self_w (set_w (Some 84) tb0) = Some 84 \<and> hpadding (set_w (Some 84) tb0) = 2
      \<and> mono_measure (fixed_width 10) \<and> subadditive_measure (fixed_width 10)
      \<and> fixed_width 10 ''...'' \<le> 80
      \<and> 2 * 80 < fixed_width 10 ''abcdefghijklmnopqrstuvwxyz''
      \<and> get_lines (fixed_width 10) (set_w (Some 84) tb0) = Some [''abcdefgh'', ''ijklm...'']
      \<and> fixed_width 10 ''abcdefgh'' \<le> 80 \<and> fixed_width 10 ''ijklm...'' \<le> 80)"
proof -
  define tb where "tb = set_w (Some 84) (set_margin (Inl 0) (set_padding (Inl 2)
              (widget.extend Widget_init
                 \<lparr> tb_text = ''abcdefghijklmnopqrstuvwxyz'', style_size = 16,
                   line_count = 2, line_sep = 2, wrap = True, overflow = ''shrink'',
                   use_real_line_count = False \<rparr>)))"
  have i: "TextBox_init ''abcdefghijklmnopqrstuvwxyz'' 16 (Some 2) 2 True ''shrink'' False
             = Inr (set_margin (Inl 0) (set_padding (Inl 2)
              (widget.extend Widget_init
                 \<lparr> tb_text = ''abcdefghijklmnopqrstuvwxyz'', style_size = 16,
                   line_count = 2, line_sep = 2, wrap = True, overflow = ''shrink'',
                   use_real_line_count = False \<rparr>)))"
    by (simp add: TextBox_init_def)
  have f: "self_w tb = Some 84" "hpadding tb = 2" "wrap tb" "line_count tb = 2"
    "overflow tb = ''shrink''" "tb_text tb = ''abcdefghijklmnopqrstuvwxyz''"
    by (simp_all add: tb_def set_w_def set_margin_def set_padding_def widget.defs Widget_init_def)
  have h1: "(84::int) \<noteq> 0" by simp
  have h2: "(80::int) = 84 - hpadding tb * 2" by (simp add: f)
  have h3: "CHR 0x0A \<notin> set (tb_text tb)" by (simp add: f)
  have h4: "mono_measure (fixed_width 10)" by (rule mono_fixed_width) simp
  have h5: "subadditive_measure (fixed_width 10)" by (rule subadditive_fixed_width)
  have h6: "fixed_width 10 ''...'' \<le> 80" by (simp add: fixed_width_def)
  have h7: "2 * 80 < fixed_width 10 (tb_text tb)" by (simp add: f fixed_width_def)
  from TextBox_two_lines_ellipsis [OF f(1) h1 h2 f(3) f(4) f(5) h3 h4 h5 h6 h7]
  obtain k1 k2 where
    r: "get_lines (fixed_width 10) tb
          = Some [take k1 (tb_text tb), take k2 (drop k1 (tb_text tb)) @ ''...'']"
    and b: "fixed_width 10 (take k1 (tb_text tb)) \<le> 80"
      "fixed_width 10 (take k2 (drop k1 (tb_text tb)) @ ''...'') \<le> 80"
    by blast
  have v: "get_lines (fixed_width 10) tb = Some [''abcdefgh'', ''ijklm...'']"
    unfolding tb_def by code_simp
  from r [symmetric] v
  have "Some [take k1 (tb_text tb), take k2 (drop k1 (tb_text tb)) @ ''...'']
          = Some [''abcdefgh'', ''ijklm...'']"
    by (rule trans)
  then have e: "take k1 (tb_text tb) = ''abcdefgh''"
    "take k2 (drop k1 (tb_text tb)) @ ''...'' = ''ijklm...''"
    by (simp_all only: option.inject list.inject)
  from b have "fixed_width 10 ''abcdefgh'' \<le> 80 \<and> fixed_width 10 ''ijklm...'' \<le> 80"
    unfolding e by (rule conjI)
  with i f h4 h5 h6 h7 v show ?thesis
    unfolding tb_def by simp
qed

text \<open>
  The claim as stated fails in two ways, with a font whose glyphs are all 10 wide.
  With width 24 and padding 2 the available width is 20, less than the ellipsis: the
  binary search returns \<open>-1\<close>, the slice \<^verbatim>\<open>line[:-1]\<close> drops only the last character,
  and the second line is 80 wide. With explicit line breaks, the text
  \<^verbatim>\<open>"a\nb\n" + 26 letters\<close> yields the two lines \<^verbatim>\<open>a\<close> and \<^verbatim>\<open>b\<close>, and the second
  does not end in the ellipsis.
\<close>

theorem TextBox_two_lines_counterexample:
  "(case TextBox_init ''abcdefgh'' 16 (Some 2) 2 True ''shrink'' False of
      Inl e \<Rightarrow> False
    | Inr tb0 \<Rightarrow>
        2 * (24 - hpadding (set_w (Some 24) tb0) * 2) < fixed_width 10 ''abcdefgh''
      \<and> get_lines (fixed_width 10) (set_w (Some 24) tb0) = Some [''ab'', ''cdefg...'']
      \<and> 24 - hpadding (set_w (Some 24) tb0) * 2 < fixed_width 10 ''cdefg...'')
   \<and> (case TextBox_init (''a'' @ [CHR 0x0A] @ ''b'' @ [CHR 0x0A] @ ''abcdefghijklmnopqrstuvwxyz'')
            16 (Some 2) 2 True ''shrink'' False of
      Inl e \<Rightarrow> False
    | Inr tb0 \<Rightarrow>
        2 * (84 - hpadding (set_w (Some 84) tb0) * 2)
          < fixed_width 10 (''a'' @ [CHR 0x0A] @ ''b'' @ [CHR 0x0A] @ ''abcdefghijklmnopqrstuvwxyz'')
      \<and> get_lines (fixed_width 10) (set_w (Some 84) tb0) = Some [''a'', ''b''])"
  by code_simp

section \<open>TextBox: the default line limit\<close>

text \<open>
  A \<^verbatim>\<open>TextBox\<close> constructed with \<^verbatim>\<open>line_count=None\<close> has the line limit 1 when
  \<^verbatim>\<open>use_real_line_count\<close> is false and 99999 when it is true, and as long as the
  limit is left as constructed, a call of \<^verbatim>\<open>_get_lines\<close> that returns does not return
  more lines than this limit. Whether the call returns is a separate matter, settled
  further below.
\<close>

lemma TextBox_default_line_limit:
  "TextBox_init t fs None sep wr ov use_real = Inr tb0 \<Longrightarrow>
     line_count tb0 = (if use_real then 99999 else 1)
   \<and> (\<forall>tb ls. line_count tb = line_count tb0 \<and> get_lines tw tb = Some ls
         \<longrightarrow> int (length ls) \<le> (if use_real then 99999 else 1))"
  by (auto simp: TextBox_init_def get_lines_def py_slice_to_def set_margin_def set_padding_def
      widget.defs split: if_splits option.splits)

lemma TextBox_default_line_limit_example:
  "(case TextBox_init (''abcdefgh'' @ [CHR 0x0A] @ ''xy'') 16 None 2 True ''shrink'' False of
      Inl e \<Rightarrow> False
    | Inr tb0 \<Rightarrow>
        line_count tb0 = 1
      \<and> line_count (set_w (Some 44) tb0) = line_count tb0
      \<and> get_lines (fixed_width 10) (set_w (Some 44) tb0) = Some [''a...''])"
proof -
  define tb0 where "tb0 = set_margin (Inl 0) (set_padding (Inl 2)
              (widget.extend Widget_init
                 \<lparr> tb_text = ''abcdefgh'' @ [CHR 0x0A] @ ''xy'', style_size = 16,
                   line_count = 1, line_sep = 2, wrap = True, overflow = ''shrink'',
                   use_real_line_count = False \<rparr>))"
  have i: "TextBox_init (''abcdefgh'' @ [CHR 0x0A] @ ''xy'') 16 None 2 True ''shrink'' False = Inr tb0"
    by (simp add: TextBox_init_def tb0_def)
  have v: "get_lines (fixed_width 10) (set_w (Some 44) tb0) = Some [''a...'']"
    unfolding tb0_def by code_simp
  have l: "line_count (set_w (Some 44) tb0) = line_count tb0"
    by (simp add: set_w_def)
  note th = TextBox_default_line_limit [OF i, of "fixed_width 10"]
  from th have a: "line_count tb0 = 1" by simp
  from th [THEN conjunct2, rule_format, OF conjI, OF l v]
  have "int (length [''a...'']) \<le> 1" by simp
  with a i l v show ?thesis by simp
qed

section \<open>Floats: integers are exact\<close>

lemma round_half_even_of_int: "round_half_even (of_int m) = m"
  by (simp add: round_half_even_def)

lemma fl_of_int:
  assumes "\<bar>n\<bar> < 2 ^ 53"
  shows "fl (of_int n) = of_int n"
proof (cases "n = 0")
  case True
  then show ?thesis by (simp add: fl_def)
next
  case False
  then have "1 \<le> \<bar>n\<bar>" by linarith
  then have "real_of_int 1 \<le> real_of_int \<bar>n\<bar>" by (simp only: of_int_le_iff)
  then have a: "1 \<le> \<bar>real_of_int n\<bar>" by simp
  define k where "k = nat (53 - int (floorlog 2 (nat \<bar>n\<bar>)))"
  have "nat \<bar>n\<bar> < 2 ^ 53" using assms by (simp add: nat_less_iff)
  then have "floorlog 2 (nat \<bar>n\<bar>) \<le> 53"
    by (simp add: floorlog_le_iff)
  then have sh: "fl_shift (of_int n) = int k"
    using a by (simp add: fl_shift_def k_def flip: of_int_abs)
  have "real_of_int n * pow2 (int k) = of_int (n * 2 ^ k)"
    by (simp add: pow2_def)
  then have "round_half_even (real_of_int n * pow2 (int k)) = n * 2 ^ k"
    by (simp only: round_half_even_of_int)
  then show ?thesis
    using False by (simp add: fl_def sh pow2_def)
qed

section \<open>ImageBox: fitting to a width bound\<close>

lemma fl_23_10: "fl (23 / 10) = 2589569785738035 / 1125899906842624"
  by code_simp

lemma fit_230_100: "py_int (py_fmul 100 (2589569785738035 / 1125899906842624)) = 229"
  by code_simp

lemma fl_10000: "fl 10000 = 10000"
proof -
  have "fl (of_int 10000) = of_int 10000" by (rule fl_of_int) simp
  then show ?thesis by simp
qed

text \<open>
  Claim C8 states that an \<^verbatim>\<open>ImageBox\<close> in \<^verbatim>\<open>fit\<close> mode with only a width bound
  gets a content width equal to the bound. The code computes
  \<^verbatim>\<open>int(w * (bound / w))\<close> in floating point and truncates: for a 100 by 100 image and
  the width bound 230 the quotient is the float just below 2.3, the product is just
  below 230, and the content size is \<open>(229, 229)\<close>.
\<close>

theorem ImageBox_fit_width_off_by_one:
  "ImageBox_init (100, 100) None (Some (Some 230, None))
     = Inr (set_padding (Inl 0) (set_margin (Inl 0) (set_size (Some (Some 230, None))
          (widget.extend Widget_init \<lparr> image_size = (100, 100), image_size_mode = ''fit'' \<rparr>))))
   \<and> ImageBox_get_content_size
        (set_padding (Inl 0) (set_margin (Inl 0) (set_size (Some (Some 230, None))
          (widget.extend Widget_init \<lparr> image_size = (100, 100), image_size_mode = ''fit'' \<rparr>))))
     = Inr (229, 229)"
proof -
  define ib where "ib = set_padding (Inl 0) (set_margin (Inl 0) (set_size (Some (Some 230, None))
          (widget.extend Widget_init \<lparr> image_size = (100, 100), image_size_mode = ''fit'' \<rparr>)))"
  have i: "ImageBox_init (100, 100) None (Some (Some 230, None)) = Inr ib"
    by (simp add: ImageBox_init_def ib_def set_image_size_mode_def truthy_def set_size_def
        widget.defs Let_def)
  have f: "self_w ib = Some 230" "self_h ib = None" "hpadding ib = 0" "vpadding ib = 0"
    "image_size ib = (100, 100)" "image_size_mode ib = ''fit''"
    by (simp_all add: ib_def set_padding_def set_margin_def set_size_def widget.defs
        Widget_init_def)
  have m: "min (2589569785738035 / 1125899906842624) (10000::real)
             = 2589569785738035 / 1125899906842624"
    by simp
  have "ImageBox_get_content_size ib = Inr (229, 229)"
    by (simp add: ImageBox_get_content_size_def f fit_bound_def py_truediv_def Let_def
        fl_23_10 fl_10000 m fit_230_100)
  with i show ?thesis unfolding ib_def by simp
qed

section \<open>Configuration errors: at configuration time or at first measurement\<close>

lemma ImageBox_missing_dimension:
  assumes "mode \<in> {''fit'', ''fill''}"
  shows "\<exists>b. ImageBox_init img (Some mode) None = Inr b
           \<and> ImageBox_get_content_size b = Inl AssertionError"
proof -
  define b where "b = set_padding (Inl 0) (set_margin (Inl 0)
          (widget.extend Widget_init \<lparr> image_size = img, image_size_mode = mode \<rparr>))"
  have i: "ImageBox_init img (Some mode) None = Inr b"
    using assms
    by (auto simp: ImageBox_init_def b_def set_image_size_mode_def widget.defs Let_def)
  have f: "self_w b = None" "self_h b = None" "image_size_mode b = mode"
    by (simp_all add: b_def set_padding_def set_margin_def widget.defs Widget_init_def)
  have "ImageBox_get_content_size b = Inl AssertionError"
    using assms by (auto simp: ImageBox_get_content_size_def f Let_def)
  with i show ?thesis by blast
qed

lemma Grid_expand_missing_dimension:
  assumes "c \<noteq> 0" "ALIGN_MAP a = Some al"
  shows "\<exists>g. Grid_init gits None (Some c) ''expand'' a hs vs vert = Inr g
           \<and> Grid_get_content_size g = Inl AssertionError"
proof -
  obtain ha va where al: "al = (ha, va)" by (cases al)
  define g where "g = widget.extend Widget_init
                      \<lparr> items = gits, row_count = None, col_count = Some c,
                        item_size_mode = ''expand'', hsep = hs, vsep = vs,
                        item_halign = ha, item_valign = va, vertical = vert \<rparr>"
  have i: "Grid_init gits None (Some c) ''expand'' a hs vs vert = Inr g"
    using assms by (simp add: Grid_init_def g_def truthy_def al)
  have f: "self_w g = None" "row_count g = None" "col_count g = Some c"
    "item_size_mode g = ''expand''"
    by (simp_all add: g_def widget.defs Widget_init_def)
  have "Grid_rc g = Inr ((int (length (items g)) + c - 1) div c, c)"
    using assms(1) by (simp add: Grid_rc_def f truthy_def Let_def)
  then have "Grid_get_content_size g = Inl AssertionError"
    by (simp add: Grid_get_content_size_def Grid_get_grid_rc_and_size_def f)
  with i show ?thesis by blast
qed

lemma HSplit_expand_missing_dimension:
  assumes "its \<noteq> []" "item_sizes its = Inr ss" "ALIGN_MAP a = Some al"
  shows "\<exists>h. HSplit_init its rs sp ''expand'' a = Inr h
           \<and> HSplit_get_content_size h = Inl AssertionError"
proof -
  obtain ha va where al: "al = (ha, va)" by (cases al)
  define h where "h = widget.extend Widget_init
                      \<lparr> hs_items = its, ratios = rs, hs_sep = sp,
                        hs_item_size_mode = ''expand'',
                        hs_item_halign = ha, hs_item_valign = va \<rparr>"
  have i: "HSplit_init its rs sp ''expand'' a = Inr h"
    using assms by (simp add: HSplit_init_def h_def al)
  have f: "self_w h = None" "hs_items h = its" "ratios h = rs"
    "hs_item_size_mode h = ''expand''"
    by (simp_all add: h_def widget.defs Widget_init_def)
  have "HSplit_get_item_sizes h = Inl AssertionError"
    using assms(2)
    by (simp add: HSplit_get_item_sizes_def f split: option.splits)
  then have "HSplit_get_content_size h = Inl AssertionError"
    using assms(1) by (simp add: HSplit_get_content_size_def f)
  with i show ?thesis by blast
qed

text \<open>
  Claim C6 (as amended). An invalid alignment token (\<^verbatim>\<open>ValueError\<close> from
  \<^verbatim>\<open>set_content_align\<close>, \<^verbatim>\<open>set_offset_anchor\<close> and the \<^verbatim>\<open>HSplit\<close> and
  \<^verbatim>\<open>Grid\<close> constructors), an invalid overflow mode (assertion in the \<^verbatim>\<open>TextBox\<close>
  constructor and in \<^verbatim>\<open>set_overflow\<close>) and a \<^verbatim>\<open>Grid\<close> given both a row count and
  a column count (assertion in the constructor) are raised at configuration time. A
  missing dimension for the \<^verbatim>\<open>fit\<close> and \<^verbatim>\<open>fill\<close> modes of an \<^verbatim>\<open>ImageBox\<close> and for
  the \<^verbatim>\<open>expand\<close> mode of a \<^verbatim>\<open>Grid\<close> or \<^verbatim>\<open>HSplit\<close> is accepted by the constructor
  and raised as an assertion failure by the first measurement
  (\<^verbatim>\<open>_get_content_size\<close>).
\<close>

theorem config_errors_when_raised:
  "(ALIGN_MAP a = None \<longrightarrow>
        set_content_align a wd = Inl ValueError
      \<and> set_offset_anchor a wd = Inl ValueError
      \<and> HSplit_init its rs sp ''fixed'' a = Inl ValueError
      \<and> Grid_init gits None cc ''fixed'' a hs vs vert = Inl ValueError)
   \<and> (ov \<notin> {''shrink'', ''clip''} \<longrightarrow>
        TextBox_init t fs lc lsep wr ov ur = Inl AssertionError
      \<and> set_overflow ov tb = Inl AssertionError)
   \<and> (truthy rc \<and> truthy cc' \<longrightarrow>
        Grid_init gits rc cc' mode a' hs vs vert = Inl AssertionError)
   \<and> (imode \<in> {''fit'', ''fill''} \<longrightarrow>
        (\<exists>b. ImageBox_init img (Some imode) None = Inr b
            \<and> ImageBox_get_content_size b = Inl AssertionError))
   \<and> (c \<noteq> 0 \<and> ALIGN_MAP a'' = Some al \<longrightarrow>
        (\<exists>g. Grid_init gits None (Some c) ''expand'' a'' hs vs vert = Inr g
            \<and> Grid_get_content_size g = Inl AssertionError))
   \<and> (its \<noteq> [] \<and> item_sizes its = Inr ss \<and> ALIGN_MAP a'' = Some al \<longrightarrow>
        (\<exists>h. HSplit_init its rs sp ''expand'' a'' = Inr h
            \<and> HSplit_get_content_size h = Inl AssertionError))"
proof (intro conjI impI)
  assume "ALIGN_MAP a = None"
  then show "set_content_align a wd = Inl ValueError"
    "set_offset_anchor a wd = Inl ValueError"
    "HSplit_init its rs sp ''fixed'' a = Inl ValueError"
    "Grid_init gits None cc ''fixed'' a hs vs vert = Inl ValueError"
    by (simp_all add: set_content_align_def set_offset_anchor_def HSplit_init_def Grid_init_def
        truthy_def)
next
  assume "ov \<notin> {''shrink'', ''clip''}"
  then show "TextBox_init t fs lc lsep wr ov ur = Inl AssertionError"
    "set_overflow ov tb = Inl AssertionError"
    by (simp_all add: TextBox_init_def set_overflow_def)
next
  assume "truthy rc \<and> truthy cc'"
  then show "Grid_init gits rc cc' mode a' hs vs vert = Inl AssertionError"
    by (simp add: Grid_init_def)
next
  assume "imode \<in> {''fit'', ''fill''}"
  then show "\<exists>b. ImageBox_init img (Some imode) None = Inr b
            \<and> ImageBox_get_content_size b = Inl AssertionError"
    by (rule ImageBox_missing_dimension)
next
  assume "c \<noteq> 0 \<and> ALIGN_MAP a'' = Some al"
  then show "\<exists>g. Grid_init gits None (Some c) ''expand'' a'' hs vs vert = Inr g
            \<and> Grid_get_content_size g = Inl AssertionError"
    by (auto intro: Grid_expand_missing_dimension)
next
  assume "its \<noteq> [] \<and> item_sizes its = Inr ss \<and> ALIGN_MAP a'' = Some al"
  then show "\<exists>h. HSplit_init its rs sp ''expand'' a'' = Inr h
            \<and> HSplit_get_content_size h = Inl AssertionError"
    by (auto intro: HSplit_expand_missing_dimension)
qed

theorem config_errors_when_raised_witness:
  "ALIGN_MAP ''x'' = None \<and> set_content_align ''x'' Widget_init = Inl ValueError
   \<and> ''wrap'' \<notin> {''shrink'', ''clip''}
   \<and> TextBox_init ''abc'' 16 None 2 True ''wrap'' False = Inl AssertionError
   \<and> truthy (Some 2) \<and> truthy (Some 3)
   \<and> Grid_init [Inr (10, 10)] (Some 2) (Some 3) ''fixed'' ''c'' 8 8 False = Inl AssertionError
   \<and> (\<exists>b. ImageBox_init (100, 100) (Some ''fit'') None = Inr b
          \<and> ImageBox_get_content_size b = Inl AssertionError)
   \<and> ALIGN_MAP ''c'' = Some (XC, YC)
   \<and> (\<exists>g. Grid_init [Inr (10, 10)] None (Some 3) ''expand'' ''c'' 8 8 False = Inr g
          \<and> Grid_get_content_size g = Inl AssertionError)
   \<and> item_sizes [Inr (10, 10)] = Inr [(10, 10)]
   \<and> (\<exists>h. HSplit_init [Inr (10, 10)] None 8 ''expand'' ''c'' = Inr h
          \<and> HSplit_get_content_size h = Inl AssertionError)"
proof -
  have h1: "ALIGN_MAP ''x'' = None" by (simp add: ALIGN_MAP_def)
  have h2: "''wrap'' \<notin> {''shrink'', ''clip''}" by simp
  have h3: "truthy (Some 2) \<and> truthy (Some 3)" by (simp add: truthy_def)
  have h4: "''fit'' \<in> {''fit'', ''fill''}" by simp
  have h5: "(3::int) \<noteq> 0 \<and> ALIGN_MAP ''c'' = Some (XC, YC)" by (simp add: ALIGN_MAP_def)
  have h6: "[Inr (10, 10)] \<noteq> [] \<and> item_sizes [Inr (10, 10)] = Inr [(10, 10)]
            \<and> ALIGN_MAP ''c'' = Some (XC, YC)"
    by (simp add: ALIGN_MAP_def)
  note th = config_errors_when_raised
      [of "''x''" Widget_init "[Inr (10, 10)]" None 8 "[Inr (10, 10)]" None 8 8 False
          "''wrap''" "''abc''" 16 None 2 True False
          "widget.extend Widget_init
             \<lparr> tb_text = ''abc'', style_size = 16, line_count = 1, line_sep = 2, wrap = True,
               overflow = ''shrink'', use_real_line_count = False \<rparr>"
          "Some 2" "Some 3" "''fixed''" "''c''" "''fit''" "(100, 100)" 3 "''c''" "(XC, YC)"
          "[(10, 10)]"]
  from th h1 have a: "set_content_align ''x'' Widget_init = Inl ValueError" by blast
  from th h2 have b: "TextBox_init ''abc'' 16 None 2 True ''wrap'' False = Inl AssertionError"
    by blast
  from th h3 have c: "Grid_init [Inr (10, 10)] (Some 2) (Some 3) ''fixed'' ''c'' 8 8 False
                        = Inl AssertionError"
    by blast
  from th h4 have d: "\<exists>b. ImageBox_init (100, 100) (Some ''fit'') None = Inr b
          \<and> ImageBox_get_content_size b = Inl AssertionError"
    by blast
  from th h5 have e: "\<exists>g. Grid_init [Inr (10, 10)] None (Some 3) ''expand'' ''c'' 8 8 False = Inr g
          \<and> Grid_get_content_size g = Inl AssertionError"
    by blast
  from th h6 have f: "\<exists>h. HSplit_init [Inr (10, 10)] None 8 ''expand'' ''c'' = Inr h
          \<and> HSplit_get_content_size h = Inl AssertionError"
    by blast
  from h1 a h2 b h3 c d h5 e h6 f show ?thesis by blast
qed

text \<open>
  The claim as stated fails for the missing dimension: \<^verbatim>\<open>ImageBox(image,
  image_size_mode='fit')\<close> with no size is constructed without error, and the
  assertion \<^verbatim>\<open>Fit mode requires width or height\<close> fails only when the content size
  is measured.
\<close>

theorem ImageBox_fit_error_at_measurement_counterexample:
  "ImageBox_init (100, 100) (Some ''fit'') None
     = Inr (set_padding (Inl 0) (set_margin (Inl 0)
          (widget.extend Widget_init \<lparr> image_size = (100, 100), image_size_mode = ''fit'' \<rparr>)))
   \<and> ImageBox_get_content_size
        (set_padding (Inl 0) (set_margin (Inl 0)
          (widget.extend Widget_init \<lparr> image_size = (100, 100), image_size_mode = ''fit'' \<rparr>)))
     = Inl AssertionError"
  by (simp add: ImageBox_init_def ImageBox_get_content_size_def set_image_size_mode_def
      set_padding_def set_margin_def widget.defs Widget_init_def Let_def)

section \<open>Canvas: the pixel limit of get_img\<close>

lemma get_self_size_widget:
  assumes "get_self_size cs wd = Inr (ss, wd1)"
  shows "\<exists>a b. wd1 = wd\<lparr> calc_w := a, calc_h := b \<rparr>"
proof (cases "truthy (calc_w wd) \<and> truthy (calc_h wd)")
  case True
  with assms have "wd1 = wd"
    by (auto simp: get_self_size_def split: option.splits)
  then have "wd1 = wd\<lparr> calc_w := calc_w wd, calc_h := calc_h wd \<rparr>" by simp
  then show ?thesis by blast
next
  case False
  with assms show ?thesis
    by (auto simp: get_self_size_def Let_def split: sum.splits prod.splits if_splits)
qed

lemma get_self_size_again:
  assumes gs: "get_self_size cs wd = Inr (ss, wd1)"
    and indep: "\<And>a b. cs (wd\<lparr> calc_w := a, calc_h := b \<rparr>) = cs wd"
  shows "get_self_size cs wd1 = Inr (ss, wd1)"
proof (cases "truthy (calc_w wd) \<and> truthy (calc_h wd)")
  case True
  with gs have "wd1 = wd"
    by (auto simp: get_self_size_def split: option.splits)
  with gs show ?thesis by simp
next
  case False
  with gs obtain cw ch where c: "cs wd = Inr (cw, ch)"
    by (auto simp: get_self_size_def split: sum.splits)
  define lw where "lw = (case self_w wd of Some a \<Rightarrow> a - hpadding wd * 2 | None \<Rightarrow> cw)"
  define lh where "lh = (case self_h wd of Some b \<Rightarrow> b - vpadding wd * 2 | None \<Rightarrow> ch)"
  define sw where "sw = lw + hmargin wd * 2 + hpadding wd * 2"
  define sh where "sh = lh + vmargin wd * 2 + vpadding wd * 2"
  from gs False c have ok: "\<not> (cw > lw \<or> ch > lh)"
    by (auto simp: get_self_size_def Let_def lw_def lh_def split: if_splits)
  from gs False c ok have r: "ss = (sw, sh)" "wd1 = wd\<lparr> calc_w := Some sw, calc_h := Some sh \<rparr>"
    by (auto simp: get_self_size_def Let_def lw_def lh_def sw_def sh_def split: if_splits)
  have c1: "cs wd1 = Inr (cw, ch)"
    unfolding r(2) using indep c by simp
  show ?thesis
  proof (cases "truthy (calc_w wd1) \<and> truthy (calc_h wd1)")
    case True
    then show ?thesis
      unfolding r by (simp add: get_self_size_def)
  next
    case False
    then show ?thesis
      using c1 ok unfolding r
      by (simp add: get_self_size_def Let_def lw_def lh_def sw_def sh_def
          cong: option.case_cong)
  qed
qed

lemma Widget_draw_returns:
  assumes gs: "get_self_size cs wd = Inr (ss, wd1)"
    and indep: "\<And>a b. cs (wd\<lparr> calc_w := a, calc_h := b \<rparr>) = cs wd"
    and csok: "cs wd = Inr c"
    and ds: "never_raises draw_self" and dc: "never_raises draw_content"
    and sz: "p_size p = ss"
  shows "\<exists>p' wd'. Widget_draw cs draw_self draw_content wd1 p = Inr (p', wd')"
proof -
  have again: "get_self_size cs wd1 = Inr (ss, wd1)"
    using gs indep by (rule get_self_size_again)
  from get_self_size_widget [OF gs] obtain a b where
    "wd1 = wd\<lparr> calc_w := a, calc_h := b \<rparr>" by blast
  then have c1: "cs wd1 = Inr c" using indep csok by simp
  obtain pos where cp: "get_content_pos cs wd1 = Inr (pos, wd1)"
    using again c1
    by (cases ss; cases c) (simp add: get_content_pos_def Let_def)
  define p2 where "p2 = shrink_region (hmargin wd1, vmargin wd1)
     (move_region
        (case offset_xanchor wd1 of
           XL \<Rightarrow> fst (self_offset wd1)
         | XR \<Rightarrow> fst (self_offset wd1) - p_w p
         | XC \<Rightarrow> fst (self_offset wd1) - p_w p div 2,
         case offset_yanchor wd1 of
           YT \<Rightarrow> snd (self_offset wd1)
         | YB \<Rightarrow> snd (self_offset wd1) - p_h p
         | YC \<Rightarrow> snd (self_offset wd1) - p_h p div 2) None p)"
  from ds obtain p3 where p3: "draw_self p2 = Inr p3"
    unfolding never_raises_def by blast
  obtain p5 where en: "draw_enter cs draw_self wd1 p = Inr (p5, wd1)"
    using again sz p3 cp
    by (cases pos) (simp add: draw_enter_def Let_def p2_def)
  from dc obtain p6 where "draw_content p5 = Inr p6"
    unfolding never_raises_def by blast
  with en show ?thesis by (simp add: Widget_draw_def)
qed

lemma Frame_content_size_cache_independent:
  "Frame_get_content_size (cv\<lparr> calc_w := a, calc_h := b \<rparr>) = Frame_get_content_size cv"
  by (simp add: Frame_get_content_size_def)

text \<open>
  Claim C7. \<^verbatim>\<open>Canvas.get_img\<close> fails its assertion whenever the product of the
  self-size extents is not below \<open>4096 * 4096\<close>, and no pixel buffer has been
  allocated by then. For a canvas below the limit, with non-negative extents, whose
  children measure and whose background and children draw without raising, it returns
  an RGBA image: of the canvas self size when no scale (or a zero scale) is given, and
  of the size \<^verbatim>\<open>(int(w * scale), int(h * scale))\<close> otherwise (both at least 1).
\<close>

theorem Canvas_get_img_limit:
  "(get_self_size Frame_get_content_size cv = Inr ((w, h), cv1) \<and> \<not> (w * h < 4096 * 4096)
      \<longrightarrow> Canvas_get_img draw_self draw_content scale cv = (Inl AssertionError, []))
   \<and> (get_self_size Frame_get_content_size cv = Inr ((w, h), cv1) \<and> w * h < 4096 * 4096
       \<and> 0 \<le> w \<and> 0 \<le> h \<and> Frame_get_content_size cv = Inr c
       \<and> never_raises draw_self \<and> never_raises draw_content
      \<longrightarrow> (scale = None \<or> scale = Some 0 \<longrightarrow>
             Canvas_get_img draw_self draw_content scale cv
               = (Inr \<lparr> im_mode = ''RGBA'', im_size = (w, h) \<rparr>, [(w, h)]))
        \<and> (\<forall>s. scale = Some s \<and> s \<noteq> 0
                \<and> 1 \<le> py_int (py_fmul (of_int w) s) \<and> 1 \<le> py_int (py_fmul (of_int h) s)
              \<longrightarrow> fst (Canvas_get_img draw_self draw_content scale cv)
                    = Inr \<lparr> im_mode = ''RGBA'',
                            im_size = (py_int (py_fmul (of_int w) s),
                                       py_int (py_fmul (of_int h) s)) \<rparr>))"
proof (intro conjI impI allI)
  assume "get_self_size Frame_get_content_size cv = Inr ((w, h), cv1) \<and> \<not> (w * h < 4096 * 4096)"
  then show "Canvas_get_img draw_self draw_content scale cv = (Inl AssertionError, [])"
    by (simp add: Canvas_get_img_def)
next
  assume a: "get_self_size Frame_get_content_size cv = Inr ((w, h), cv1) \<and> w * h < 4096 * 4096
       \<and> 0 \<le> w \<and> 0 \<le> h \<and> Frame_get_content_size cv = Inr c
       \<and> never_raises draw_self \<and> never_raises draw_content"
  then have gs: "get_self_size Frame_get_content_size cv = Inr ((w, h), cv1)" by simp
  from a have csok: "Frame_get_content_size cv = Inr c" by simp
  from a have nr: "never_raises draw_self" "never_raises draw_content" by simp_all
  have new: "Image_new ''RGBA'' (w, h) = Inr \<lparr> im_mode = ''RGBA'', im_size = (w, h) \<rparr>"
    using a by (simp add: Image_new_def)
  have "p_size (Painter_init (w, h)) = (w, h)" by (simp add: Painter_init_def)
  from Widget_draw_returns [OF gs Frame_content_size_cache_independent csok nr this]
  obtain p' wd' where dr: "Widget_draw Frame_get_content_size draw_self draw_content cv1
                              (Painter_init (w, h)) = Inr (p', wd')"
    by blast
  {
    assume "scale = None \<or> scale = Some 0"
    then show "Canvas_get_img draw_self draw_content scale cv
               = (Inr \<lparr> im_mode = ''RGBA'', im_size = (w, h) \<rparr>, [(w, h)])"
      using gs a new dr by (auto simp: Canvas_get_img_def)
  }
  {
    fix s
    assume s: "scale = Some s \<and> s \<noteq> 0
                \<and> 1 \<le> py_int (py_fmul (of_int w) s) \<and> 1 \<le> py_int (py_fmul (of_int h) s)"
    then show "fst (Canvas_get_img draw_self draw_content scale cv)
                    = Inr \<lparr> im_mode = ''RGBA'',
                            im_size = (py_int (py_fmul (of_int w) s),
                                       py_int (py_fmul (of_int h) s)) \<rparr>"
      using gs a new dr by (auto simp: Canvas_get_img_def Image_resize_def)
  }
qed

theorem Canvas_get_img_limit_witness:
  "Canvas_get_img draw_nothing draw_nothing None (Canvas_init (Some 4096) (Some 4096))
     = (Inl AssertionError, [])
   \<and> never_raises draw_nothing
   \<and> Canvas_get_img draw_nothing draw_nothing None
         (add_item (Inr (40, 20)) (Canvas_init (Some 100) (Some 50)))
     = (Inr \<lparr> im_mode = ''RGBA'', im_size = (100, 50) \<rparr>, [(100, 50)])
   \<and> fst (Canvas_get_img draw_nothing draw_nothing (Some (1 / 2))
         (add_item (Inr (40, 20)) (Canvas_init (Some 100) (Some 50))))
     = Inr \<lparr> im_mode = ''RGBA'', im_size = (50, 25) \<rparr>"
proof -
  define big where "big = Canvas_init (Some 4096) (Some 4096)"
  define cv where "cv = add_item (Inr (40, 20)) (Canvas_init (Some 100) (Some 50))"
  have g1: "get_self_size Frame_get_content_size big
              = Inr ((4096, 4096), big\<lparr> calc_w := Some 4096, calc_h := Some 4096 \<rparr>)"
    by (simp add: big_def Canvas_init_def Frame_init_def set_margin_def set_size_def widget.defs
        Widget_init_def get_self_size_def Frame_get_content_size_def truthy_def
        DEFAULT_MARGIN_def DEFAULT_PADDING_def)
  have g2: "get_self_size Frame_get_content_size cv
              = Inr ((100, 50), cv\<lparr> calc_w := Some 100, calc_h := Some 50 \<rparr>)"
    by (simp add: cv_def add_item_def Canvas_init_def Frame_init_def set_margin_def set_size_def
        widget.defs Widget_init_def get_self_size_def Frame_get_content_size_def truthy_def
        DEFAULT_MARGIN_def DEFAULT_PADDING_def)
  have c2: "Frame_get_content_size cv = Inr (40, 20)"
    by (simp add: cv_def add_item_def Canvas_init_def Frame_init_def set_margin_def set_size_def
        widget.defs Frame_get_content_size_def)
  have nr: "never_raises draw_nothing"
    by (simp add: never_raises_def draw_nothing_def)
  have "fl (of_int 50) = of_int 50" "fl (of_int 25) = of_int 25"
    by (rule fl_of_int, simp)+
  then have sc: "py_int (py_fmul (of_int 100) (1 / 2)) = 50"
    "py_int (py_fmul (of_int 50) (1 / 2)) = 25"
    by (simp_all add: py_fmul_def py_int_def)
  have lim: "\<not> ((4096::int) * 4096 < 4096 * 4096)" "(100::int) * 50 < 4096 * 4096" by simp_all
  note t1 = Canvas_get_img_limit [where cv = big and w = 4096 and h = 4096
      and draw_self = draw_nothing and draw_content = draw_nothing and scale = None]
  note t2 = Canvas_get_img_limit [where cv = cv and w = 100 and h = 50 and c = "(40, 20)"
      and draw_self = draw_nothing and draw_content = draw_nothing and scale = None]
  note t3 = Canvas_get_img_limit [where cv = cv and w = 100 and h = 50 and c = "(40, 20)"
      and draw_self = draw_nothing and draw_content = draw_nothing and scale = "Some (1 / 2)"]
  from t1 g1 lim(1)
  have a: "Canvas_get_img draw_nothing draw_nothing None big = (Inl AssertionError, [])"
    by blast
  from t2 g2 lim(2) c2 nr
  have b: "Canvas_get_img draw_nothing draw_nothing None cv
             = (Inr \<lparr> im_mode = ''RGBA'', im_size = (100, 50) \<rparr>, [(100, 50)])"
    by simp
  have pre: "get_self_size Frame_get_content_size cv
                 = Inr ((100, 50), cv\<lparr> calc_w := Some 100, calc_h := Some 50 \<rparr>)
       \<and> (100::int) * 50 < 4096 * 4096
       \<and> (0::int) \<le> 100 \<and> (0::int) \<le> 50 \<and> Frame_get_content_size cv = Inr (40, 20)
       \<and> never_raises draw_nothing \<and> never_raises draw_nothing"
    using g2 c2 nr by simp
  have sp: "Some (1 / 2) = Some (1 / 2 :: real) \<and> (1 / 2 :: real) \<noteq> 0
                \<and> 1 \<le> py_int (py_fmul (of_int 100) (1 / 2))
                \<and> 1 \<le> py_int (py_fmul (of_int 50) (1 / 2))"
    using sc by simp
  from t3 [THEN conjunct2, rule_format, OF pre, THEN conjunct2, rule_format, OF sp]
  have c: "fst (Canvas_get_img draw_nothing draw_nothing (Some (1 / 2)) cv)
                    = Inr \<lparr> im_mode = ''RGBA'', im_size = (50, 25) \<rparr>"
    using sc by simp
  from a nr b c show ?thesis unfolding big_def cv_def by blast
qed

section \<open>Gradients: direction of the interpolation\<close>
















section \<open>Containers keep the region stack balanced\<close>

lemma restore_region_1: "restore_region 1 p = restore_once p"
  by (simp add: restore_region.simps Let_def)

lemma restore_region_2: "restore_region 2 p = restore_once (restore_once p)"
  by (simp add: restore_region.simps Let_def)

lemma region_state_move_restore:
  assumes "region_state p' = region_state (move_region dlt sz p)"
  shows "region_state (restore_once p') = region_state p"
proof -
  from assms have "region_stack p' = (p_offset p, p_size p) # region_stack p"
    by (simp add: region_state_def move_region_def set_region_def)
  then show ?thesis
    by (simp add: restore_once_def region_state_def)
qed

lemma Frame_draw_items_keeps_region:
  assumes "\<forall>it \<in> set its. keeps_region (snd it)"
  shows "keeps_region (Frame_draw_items fr csz its)"
  unfolding keeps_region_def
proof (intro allI impI)
  fix q q'
  assume "Frame_draw_items fr csz its q = Inr q'"
  with assms show "region_state q' = region_state q"
  proof (induction its arbitrary: q)
    case Nil
    then show ?case by simp
  next
    case (Cons it its)
    obtain w h d where it: "it = ((w, h), d)" by (cases it) auto
    define x where "x = (case content_halign fr of
                 XL \<Rightarrow> 0 | XR \<Rightarrow> fst csz - w | XC \<Rightarrow> (fst csz - w) div 2)"
    define y where "y = (case content_valign fr of
                 YT \<Rightarrow> 0 | YB \<Rightarrow> snd csz - h | YC \<Rightarrow> (snd csz - h) div 2)"
    from Cons.prems(2) obtain p' where
      d: "d (move_region (x, y) (Some (w, h)) q) = Inr p'"
      and rest: "Frame_draw_items fr csz its (restore_region 1 p') = Inr q'"
      by (auto simp: it Let_def x_def y_def split: sum.splits)
    from Cons.prems(1) have "keeps_region d" by (simp add: it)
    with d have "region_state p' = region_state (move_region (x, y) (Some (w, h)) q)"
      by (simp add: keeps_region_def)
    then have bk: "region_state (restore_region 1 p') = region_state q"
      unfolding restore_region_1 by (rule region_state_move_restore)
    from Cons.prems(1) have "\<forall>it \<in> set its. keeps_region (snd it)" by simp
    from Cons.IH [OF this rest] bk show ?case by simp
  qed
qed

lemma Grid_draw_items_keeps_region:
  assumes "\<forall>it \<in> set its. keeps_region (snd it)" and "keeps_region item_bg"
  shows "keeps_region (Grid_draw_items g rc gsz item_bg idx its)"
  unfolding keeps_region_def
proof (intro allI impI)
  fix q q'
  assume "Grid_draw_items g rc gsz item_bg idx its q = Inr q'"
  with assms(1) show "region_state q' = region_state q"
  proof (induction its arbitrary: q idx)
    case Nil
    then show ?case by simp
  next
    case (Cons it its)
    obtain iw ih d where it: "it = ((iw, ih), d)" by (cases it) auto
    from Cons.prems(2) obtain i j where cell: "grid_cell (vertical g) (fst rc) (snd rc) idx = Inr (i, j)"
      by (auto simp: it split: sum.splits)
    define p1 where "p1 = move_region (j * (fst gsz + hsep g), i * (snd gsz + vsep g)) (Some gsz) q"
    from Cons.prems(2) cell obtain p2 where bg: "item_bg p1 = Inr p2"
      by (auto simp: it Let_def p1_def split: sum.splits)
    define x' where "x' = (case item_halign g of
                               XL \<Rightarrow> 0 | XR \<Rightarrow> fst gsz - iw | XC \<Rightarrow> (fst gsz - iw) div 2)"
    define y' where "y' = (case item_valign g of
                               YT \<Rightarrow> 0 | YB \<Rightarrow> snd gsz - ih | YC \<Rightarrow> (snd gsz - ih) div 2)"
    from Cons.prems(2) cell bg obtain p4 where
      d: "d (move_region (x', y') (Some (iw, ih)) p2) = Inr p4"
      and rest: "Grid_draw_items g rc gsz item_bg (idx + 1) its (restore_region 2 p4) = Inr q'"
      by (auto simp: it Let_def p1_def [symmetric] x'_def y'_def split: sum.splits)
    from Cons.prems(1) have "keeps_region d" by (simp add: it)
    with d have "region_state p4 = region_state (move_region (x', y') (Some (iw, ih)) p2)"
      by (simp add: keeps_region_def)
    then have s1: "region_state (restore_once p4) = region_state p2"
      by (rule region_state_move_restore)
    from assms(2) bg have "region_state p2 = region_state p1"
      by (simp add: keeps_region_def)
    with s1 have "region_state (restore_once p4) = region_state (move_region (j * (fst gsz + hsep g), i * (snd gsz + vsep g)) (Some gsz) q)"
      by (simp add: p1_def)
    then have "region_state (restore_once (restore_once p4)) = region_state q"
      by (rule region_state_move_restore)
    then have bk: "region_state (restore_region 2 p4) = region_state q"
      by (simp add: restore_region_2)
    from Cons.prems(1) have "\<forall>it \<in> set its. keeps_region (snd it)" by simp
    from Cons.IH [OF this rest] bk show ?case by simp
  qed
qed

section \<open>TextBox: a wrap loop that never returns\<close>

text \<open>
  The \<^verbatim>\<open>while True\<close> loop of \<^verbatim>\<open>_get_lines\<close> leaves only when the rest of the line
  fits or when the number of lines equals \<^verbatim>\<open>line_count\<close>. Once the list is already
  longer and the available width holds no character, the clip index is 0, the line does
  not shrink, and the loop appends empty lines for ever: with the default line limit 1,
  width 9 and padding 2, the second paragraph of \<^verbatim>\<open>"a\nb"\<close> is such a line.
\<close>

lemma wrap_loop_stuck:
  assumes ret: "wrap_loop tw w suffix lc line clipped = Some y"
  shows "get_clip_text_to_width_idx tw line w [] = Some 0 \<longrightarrow> lc \<le> int (length clipped)
           \<longrightarrow> False"
proof (rule wrap_loop.raw_induct
    [where P = "\<lambda>tw w suffix lc line clipped y.
        get_clip_text_to_width_idx tw line w [] = Some 0 \<longrightarrow> lc \<le> int (length clipped)
           \<longrightarrow> False", OF _ ret])
  fix wl :: "(string \<Rightarrow> int) \<Rightarrow> int \<Rightarrow> string \<Rightarrow> int \<Rightarrow> string \<Rightarrow> string list \<Rightarrow> string list option"
  fix tw w suffix lc line clipped y
  assume IH: "\<And>tw w suffix lc line clipped y. wl tw w suffix lc line clipped = Some y \<Longrightarrow>
        get_clip_text_to_width_idx tw line w [] = Some 0 \<longrightarrow> lc \<le> int (length clipped)
           \<longrightarrow> False"
  assume step: "(case get_clip_text_to_width_idx tw line w
            (if int (length clipped) = lc - 1 then suffix else []) of
      None \<Rightarrow> Some (clipped @ [line])
      | Some clip_idx \<Rightarrow>
          if int (length
                   (clipped @
                    [py_slice_to clip_idx line @
                     (if int (length clipped) = lc - 1 then suffix
                      else [])])) =
             lc
          then Some
                (clipped @
                 [py_slice_to clip_idx line @
                  (if int (length clipped) = lc - 1 then suffix
                   else [])])
          else wl tw w suffix lc (py_slice_from clip_idx line)
                (clipped @
                 [py_slice_to clip_idx line @
                  (if int (length clipped) = lc - 1 then suffix
                   else [])])) = Some y"
  show "get_clip_text_to_width_idx tw line w [] = Some 0 \<longrightarrow> lc \<le> int (length clipped)
           \<longrightarrow> False"
  proof (intro impI)
    assume c: "get_clip_text_to_width_idx tw line w [] = Some 0"
      and l: "lc \<le> int (length clipped)"
    from l have ns: "int (length clipped) \<noteq> lc - 1" by simp
    have sl: "py_slice_from 0 line = line" by (simp add: py_slice_from_def)
    from step ns c l sl
    have r: "wl tw w suffix lc line (clipped @ [py_slice_to 0 line]) = Some y"
      by (simp split: if_splits)
    have "lc \<le> int (length (clipped @ [py_slice_to 0 line]))" using l by simp
    with IH [OF r] c show False by blast
  qed
qed

text \<open>
  Claim C10 states that a \<^verbatim>\<open>TextBox\<close> constructed with \<^verbatim>\<open>line_count=None\<close> and
  \<^verbatim>\<open>use_real_line_count\<close> false has the line limit 1, so that multi-line text is
  reduced to a single line. The constructor does set the limit 1, but for the text
  \<^verbatim>\<open>"a\nb"\<close> with width 9 (padding 2, so 5 available, glyphs 10 wide)
  \<^verbatim>\<open>_get_lines\<close> produces no line at all: the first paragraph fills the one permitted
  line, and the loop over the second paragraph never ends, because its exit test
  \<^verbatim>\<open>len(clipped_lines) == self.line_count\<close> misses a list that is already longer.
\<close>

theorem get_lines_never_returns:
  "(case TextBox_init (''a'' @ [CHR 0x0A] @ ''b'') 16 None 2 True ''shrink'' False of
      Inl e \<Rightarrow> False
    | Inr tb0 \<Rightarrow>
        line_count tb0 = 1
      \<and> get_lines (fixed_width 10) (set_w (Some 9) tb0) = None)"
proof -
  define tb where "tb = set_w (Some 9) (set_margin (Inl 0) (set_padding (Inl 2)
              (widget.extend Widget_init
                 \<lparr> tb_text = ''a'' @ [CHR 0x0A] @ ''b'', style_size = 16,
                   line_count = 1, line_sep = 2, wrap = True, overflow = ''shrink'',
                   use_real_line_count = False \<rparr>)))"
  have f: "self_w tb = Some 9" "hpadding tb = 2" "wrap tb" "line_count tb = 1"
    "overflow tb = ''shrink''" "tb_text tb = ''a'' @ [CHR 0x0A] @ ''b''"
    by (simp_all add: tb_def set_w_def set_margin_def set_padding_def widget.defs Widget_init_def)
  have first: "wrap_loop (fixed_width 10) 5 ''...'' 1 ''a'' [] = Some [''...'']"
    by code_simp
  have c0: "get_clip_text_to_width_idx (fixed_width 10) ''b'' 5 [] = Some 0"
    by code_simp
  have second: "wrap_loop (fixed_width 10) 5 ''...'' 1 ''b'' [''...''] = None"
  proof (cases "wrap_loop (fixed_width 10) 5 ''...'' 1 ''b'' [''...'']")
    case None
    then show ?thesis .
  next
    case (Some y)
    from wrap_loop_stuck [OF Some] c0 have False by simp
    then show ?thesis ..
  qed
  have "get_lines (fixed_width 10) tb = None"
    by (simp add: get_lines_def f first second)
  then show ?thesis
    by (simp add: TextBox_init_def tb_def set_margin_def set_padding_def widget.defs)
qed

section \<open>TextBox: when the lines are produced\<close>

lemma wrap_loop_returns:
  assumes mono: "mono_measure tw" and fit: "\<And>c. tw ([c] @ suffix) < w"
  shows "\<exists>r. wrap_loop tw w suffix lc line clipped = Some r \<and> length clipped < length r"
proof (induction "length line" arbitrary: line clipped rule: less_induct)
  case less
  define sfx where "sfx = (if int (length clipped) = lc - 1 then suffix else [])"
  have fit': "tw ([c] @ sfx) < w" for c
  proof (cases "int (length clipped) = lc - 1")
    case True
    then show ?thesis using fit by (simp add: sfx_def)
  next
    case False
    have "tw ([c] @ []) \<le> tw ([c] @ suffix @ [])"
      using mono unfolding mono_measure_def by blast
    with fit [of c] False show ?thesis by (simp add: sfx_def)
  qed
  have "tw ([] @ sfx) \<le> tw ([] @ [CHR 0x61] @ sfx)"
    using mono unfolding mono_measure_def by blast
  with fit' [of "CHR 0x61"] have sf: "tw sfx \<le> w" by simp
  have step: "wrap_loop tw w suffix lc line clipped =
     (case get_clip_text_to_width_idx tw line w sfx of
        None \<Rightarrow> Some (clipped @ [line])
      | Some clip_idx \<Rightarrow>
          (if int (length (clipped @ [py_slice_to clip_idx line @ sfx])) = lc
           then Some (clipped @ [py_slice_to clip_idx line @ sfx])
           else wrap_loop tw w suffix lc (py_slice_from clip_idx line)
                  (clipped @ [py_slice_to clip_idx line @ sfx])))"
    unfolding sfx_def by (rule wrap_loop.simps)
  show ?case
  proof (cases "get_clip_text_to_width_idx tw line w sfx")
    case None
    then show ?thesis
      by (simp add: step)
  next
    case (Some ci)
    then have over: "w < tw (line @ sfx)"
      by (simp add: get_clip_text_to_width_idx_def split: if_splits)
    from get_clip_fits [OF mono over sf] Some obtain k where
      k: "ci = int k" "k < length line" "w \<le> tw (take (Suc k) line @ sfx)"
      by auto
    have k0: "0 < k"
    proof (rule ccontr)
      assume "\<not> 0 < k"
      then have "k = 0" by simp
      with k(2) have "take (Suc k) line = [hd line]"
        by (cases line) simp_all
      with k(3) fit' [of "hd line"] show False by simp
    qed
    have sl: "py_slice_to ci line = take k line" "py_slice_from ci line = drop k line"
      by (simp_all add: py_slice_to_def py_slice_from_def k(1))
    show ?thesis
    proof (cases "int (length (clipped @ [take k line @ sfx])) = lc")
      case True
      then show ?thesis
        by (simp add: step Some sl)
    next
      case False
      have "length (drop k line) < length line" using k0 k(2) by simp
      from less [OF this, of "clipped @ [take k line @ sfx]"]
      obtain r where r: "wrap_loop tw w suffix lc (drop k line) (clipped @ [take k line @ sfx]) = Some r"
        "length (clipped @ [take k line @ sfx]) < length r"
        by blast
      have "wrap_loop tw w suffix lc line clipped
              = wrap_loop tw w suffix lc (drop k line) (clipped @ [take k line @ sfx])"
        using False by (simp add: step Some sl)
      with r show ?thesis by simp
    qed
  qed
qed

lemma get_lines_loop_returns:
  assumes "self_w tb = None \<or> self_w tb = Some 0 \<or> \<not> wrap tb
           \<or> (mono_measure tw
              \<and> (\<forall>a c. self_w tb = Some a \<longrightarrow>
                     tw ([c] @ (if overflow tb = ''shrink'' then ''...'' else []))
                       < a - hpadding tb * 2))"
  shows "\<exists>r. get_lines_loop tw tb lines clipped = Some r
           \<and> length clipped + length lines \<le> length r"
proof (induction lines arbitrary: clipped)
  case Nil
  then show ?case by simp
next
  case (Cons line lines)
  show ?case
  proof (cases "self_w tb")
    case None
    with Cons [of "clipped @ [line]"] show ?thesis by auto
  next
    case (Some a)
    show ?thesis
    proof (cases "a = 0")
      case True
      with Some Cons [of "clipped @ [line]"] show ?thesis by auto
    next
      case False
      define sfx where "sfx = (if overflow tb = ''shrink'' then ''...'' else [])"
      show ?thesis
      proof (cases "wrap tb")
        case nw: False
        show ?thesis
        proof (cases "get_clip_text_to_width_idx tw line (a - hpadding tb * 2) sfx")
          case None
          with Some False nw Cons [of "clipped @ [line]"] show ?thesis
            by (auto simp: Let_def sfx_def)
        next
          case (Some ci)
          with \<open>self_w tb = Some a\<close> False nw
            Cons [of "clipped @ [py_slice_to ci line @ sfx]"]
          show ?thesis by (auto simp: Let_def sfx_def)
        qed
      next
        case True
        with assms Some False have mono: "mono_measure tw"
          and fit: "\<And>c. tw ([c] @ sfx) < a - hpadding tb * 2"
          by (auto simp: sfx_def)
        from wrap_loop_returns [OF mono fit, of "line_count tb" line clipped]
        obtain r1 where r1: "wrap_loop tw (a - hpadding tb * 2) sfx (line_count tb) line clipped = Some r1"
          "length clipped < length r1"
          by blast
        from Cons [of r1] obtain r where
          r: "get_lines_loop tw tb lines r1 = Some r" "length r1 + length lines \<le> length r"
          by blast
        from r r1 Some False True show ?thesis
          by (auto simp: Let_def sfx_def)
      qed
    qed
  qed
qed

lemma split_nl_nonempty: "split_nl s \<noteq> []"
  by (induction s) (auto split: list.splits)

text \<open>
  Away from that loop \<^verbatim>\<open>_get_lines\<close> reduces the text as intended. When no width is set,
  or \<^verbatim>\<open>wrap\<close> is off, or the width measure is monotone and every character followed by
  the overflow suffix is narrower than the available width, the call returns, with at
  least one line and at most \<^verbatim>\<open>line_count\<close> lines: exactly one line under the default
  limit 1.
\<close>

lemma get_lines_returns_within_limit:
  assumes "self_w tb = None \<or> self_w tb = Some 0 \<or> \<not> wrap tb
           \<or> (mono_measure tw
              \<and> (\<forall>a c. self_w tb = Some a \<longrightarrow>
                     tw ([c] @ (if overflow tb = ''shrink'' then ''...'' else []))
                       < a - hpadding tb * 2))"
    and lc: "1 \<le> line_count tb"
  shows "\<exists>ls. get_lines tw tb = Some ls \<and> 1 \<le> length ls \<and> int (length ls) \<le> line_count tb
            \<and> (line_count tb = 1 \<longrightarrow> length ls = 1)"
proof -
  from get_lines_loop_returns [OF assms(1), of "split_nl (tb_text tb)" "[]"]
  obtain r where r: "get_lines_loop tw tb (split_nl (tb_text tb)) [] = Some r"
    "length (split_nl (tb_text tb)) \<le> length r"
    by auto
  have "Suc 0 \<le> length (split_nl (tb_text tb))"
    using split_nl_nonempty [of "tb_text tb"] by (cases "split_nl (tb_text tb)") simp_all
  then have r1: "1 \<le> length r" using r(2) by linarith
  have g: "get_lines tw tb = Some (take (nat (line_count tb)) r)"
    using r(1) lc by (simp add: get_lines_def py_slice_to_def)
  have "1 \<le> length (take (nat (line_count tb)) r)" using r1 lc by simp
  moreover have "int (length (take (nat (line_count tb)) r)) \<le> line_count tb" using lc by simp
  moreover have "line_count tb = 1 \<longrightarrow> length (take (nat (line_count tb)) r) = 1"
    using r1 by simp
  ultimately show ?thesis using g by blast
qed

end
